theory Spec2Isabelle
  imports Complex_Main "HOL-Library.AList" "HOL-Library.Multiset"
begin

section \<open>Strings: the fragment of Python's \<open>str\<close> the extractor uses\<close>

text \<open>
  A Python string is modelled as a \<open>string\<close> (a list of characters); a character stands
  for a code point below 256. \<open>str.strip()\<close> without arguments removes the characters
  for which \<open>str.isspace\<close> holds from both ends; below 256 these are the code points
  9 to 13, 28 to 32, 133 and 160.
\<close>

definition is_space :: "char \<Rightarrow> bool" where
  "is_space c \<longleftrightarrow>
     (let n = (of_char c :: nat)
      in (9 \<le> n \<and> n \<le> 13) \<or> (28 \<le> n \<and> n \<le> 32) \<or> n = 133 \<or> n = 160)"

definition lstrip :: "string \<Rightarrow> string" where
  "lstrip s = dropWhile is_space s"

definition rstrip :: "string \<Rightarrow> string" where
  "rstrip s = rev (dropWhile is_space (rev s))"

definition strip :: "string \<Rightarrow> string" where
  "strip s = rstrip (lstrip s)"

text \<open>
  \<open>str_find pat s\<close> is the index of the leftmost occurrence of \<open>pat\<close> in \<open>s\<close>
  (Python's \<open>s.find(pat)\<close>, with \<open>None\<close> for \<open>-1\<close>).
\<close>

fun starts_with :: "string \<Rightarrow> string \<Rightarrow> bool" where
  "starts_with [] s = True"
| "starts_with (p # ps) [] = False"
| "starts_with (p # ps) (c # cs) = (p = c \<and> starts_with ps cs)"

fun str_find :: "string \<Rightarrow> string \<Rightarrow> nat option" where
  "str_find pat [] = (if starts_with pat [] then Some 0 else None)"
| "str_find pat (c # cs) =
     (if starts_with pat (c # cs) then Some 0 else map_option Suc (str_find pat cs))"

section \<open>The reasoning extractor (\<open>alog/auto.py\<close>)\<close>

definition TRACE_START :: string where
  "TRACE_START = ''===REASONING_TRACE_START===''"

definition TRACE_END :: string where
  "TRACE_END = ''===REASONING_TRACE_END===''"

text \<open>
  The result of \<open>pattern.search(output)\<close>: \<open>m_start\<close> and \<open>m_end\<close> are
  \<open>match.start()\<close> and \<open>match.end()\<close>, \<open>group1\<close> is \<open>match.group(1)\<close>.
\<close>

record re_match =
  m_start :: nat
  m_end :: nat
  group1 :: string

text \<open>
  The pattern is the escaped start marker, a lazy \<open>(.*?)\<close> under \<open>re.DOTALL\<close> (any
  character, line breaks included) and the escaped end marker. \<open>search\<close> tries the start
  positions from the left. At a position where the start marker stands, the lazy group
  grows one character at a time until the end marker follows, so the match ends with the
  first end marker that begins at or after the end of the start marker. When no end marker
  follows the leftmost start marker, none follows a later one either, so the leftmost
  start marker decides.
\<close>

definition pattern_search :: "string \<Rightarrow> re_match option" where
  "pattern_search output =
     (case str_find TRACE_START output of
        None \<Rightarrow> None
      | Some i \<Rightarrow>
          (let rest = drop (i + length TRACE_START) output
           in case str_find TRACE_END rest of
                None \<Rightarrow> None
              | Some k \<Rightarrow>
                  Some \<lparr>m_start = i,
                        m_end = i + length TRACE_START + k + length TRACE_END,
                        group1 = take k rest\<rparr>))"

text \<open>
  \<open>_extract_reasoning_trace\<close> on a string argument. (Its only caller, the wrapper
  below, passes strings only, so the \<open>isinstance\<close> guard never fires.)
\<close>

definition extract_reasoning_trace :: "string \<Rightarrow> string \<times> string option" where
  "extract_reasoning_trace output =
     (case pattern_search output of
        None \<Rightarrow> (strip output, None)
      | Some m \<Rightarrow>
          (let reasoning = strip (group1 m);
               main_output = strip (take (m_start m) output @ drop (m_end m) output)
           in (main_output, Some reasoning)))"

text \<open>
  Three texts to run the extractor on: the example of the specification, a text with two
  marker pairs, and a text without markers.
\<close>

definition answer_with_trace :: string where
  "answer_with_trace = ''ANSWER===REASONING_TRACE_START===R===REASONING_TRACE_END===''"

definition two_traces :: string where
  "two_traces =
     ''A===REASONING_TRACE_START===x===REASONING_TRACE_END======REASONING_TRACE_START===y===REASONING_TRACE_END===''"

definition padded_text :: string where
  "padded_text = ''  plain text ''"

section \<open>The extractor's specification\<close>

text \<open>
  The words of the specification, independent of the search above: \<open>pat\<close> occurs in
  \<open>s\<close> at index \<open>i\<close>; the first occurrence; a start marker followed by an end marker.
\<close>

definition occurs_at :: "string \<Rightarrow> string \<Rightarrow> nat \<Rightarrow> bool" where
  "occurs_at pat s i \<longleftrightarrow> i + length pat \<le> length s \<and> take (length pat) (drop i s) = pat"

definition first_occurrence :: "string \<Rightarrow> string \<Rightarrow> nat \<Rightarrow> bool" where
  "first_occurrence pat s i \<longleftrightarrow>
     occurs_at pat s i \<and> list_all (\<lambda>j. \<not> occurs_at pat s j) [0..<i]"

definition marker_pair :: "string \<Rightarrow> bool" where
  "marker_pair s \<longleftrightarrow>
     list_ex (\<lambda>i. occurs_at TRACE_START s i \<and>
        list_ex (\<lambda>j. occurs_at TRACE_END s j) [i + length TRACE_START..<Suc (length s)])
       [0..<Suc (length s)]"


section \<open>Python values, exceptions and library calls\<close>

text \<open>
  The values that flow through the logger: \<open>None\<close>, the scalars, lists, tuples,
  dictionaries with string keys (an association list in insertion order), and any other
  object, of which only the class name and an identity are known. Floats are carried as
  reals; nothing below depends on rounding.
\<close>

datatype pyval =
    VNone
  | VBool bool
  | VInt int
  | VFloat real
  | VStr string
  | VList "pyval list"
  | VTuple "pyval list"
  | VDict "(string \<times> pyval) list"
  | VObj string nat

text \<open>
  An exception that reaches a caller: whether its class derives from \<open>Exception\<close>
  (\<open>KeyboardInterrupt\<close>, \<open>SystemExit\<close> and \<open>GeneratorExit\<close> derive from
  \<open>BaseException\<close> only), \<open>type(e).__name__\<close> and \<open>str(e)\<close>.
\<close>

datatype pyexc = PyExc (derives_Exception: bool) (exc_type: string) (exc_msg: string)

text \<open>
  An exception raised inside a library call (\<open>open\<close>, \<open>write\<close>, \<open>json\<close>,
  \<open>str\<close>, \<open>repr\<close>, the tracing backend): \<open>OSError\<close>, \<open>TypeError\<close>, \<open>ValueError\<close>
  and the like, all subclasses of \<open>Exception\<close>. Interrupts arriving in the middle of a
  library call are not modelled.
\<close>

datatype lib_error = LibError (err_type: string) (err_msg: string)

definition raise_lib :: "lib_error \<Rightarrow> pyexc" where
  "raise_lib e = PyExc True (err_type e) (err_msg e)"

text \<open>
  The library functions the code calls but does not define are parameters: the identifiers
  \<open>uuid.uuid4()\<close> yields (by the number of identifiers drawn before), the clock (by the
  number of earlier readings), \<open>json.dumps\<close> (by its \<open>ensure_ascii\<close> flag),
  \<open>json.loads\<close>, \<open>str\<close> and \<open>repr\<close> of a value that is not a string, \<open>str\<close>
  inside an f-string, the truth value of an object (its \<open>__bool__\<close> or \<open>__len__\<close>, which
  may raise), the failures of opening a file and of starting a span, and whether the
  OpenTelemetry packages can be imported. For a file opened for appending there are two
  more places of failure: \<open>f.write(text)\<close>, and the flush and close on leaving the
  \<open>with\<close> block. After a failed write or close the lines of \<open>torn_write\<close> are what the
  file has got of the text: nothing, or a part of it.
\<close>

record pylib =
  uuid4 :: "nat \<Rightarrow> string"
  utc_isoformat :: "nat \<Rightarrow> string"
  time_time :: "nat \<Rightarrow> real"
  json_dumps :: "bool \<Rightarrow> pyval \<Rightarrow> lib_error + string"
  json_loads :: "string \<Rightarrow> lib_error + pyval"
  py_str :: "pyval \<Rightarrow> lib_error + string"
  py_repr :: "pyval \<Rightarrow> lib_error + string"
  py_format :: "pyval \<Rightarrow> string"
  py_bool :: "pyval \<Rightarrow> lib_error + bool"
  open_append_error :: "string \<Rightarrow> lib_error option"
  write_error :: "string \<Rightarrow> string \<Rightarrow> lib_error option"
  close_error :: "string \<Rightarrow> lib_error option"
  torn_write :: "string \<Rightarrow> string \<Rightarrow> string list"
  open_read_error :: "string \<Rightarrow> lib_error option"
  start_span_error :: "string \<Rightarrow> lib_error option"
  otel_installed :: bool

text \<open>
  Truth value testing, as in \<open>result and ...\<close>: decided by the value itself for
  \<open>None\<close>, the scalars and the containers; for any other object the test calls the
  object's own method, which may answer either way or raise (\<open>bool\<close> of a data frame or
  of an array raises \<open>ValueError\<close>).
\<close>

fun py_truthy :: "pylib \<Rightarrow> pyval \<Rightarrow> lib_error + bool" where
  "py_truthy E VNone = Inr False"
| "py_truthy E (VBool b) = Inr b"
| "py_truthy E (VInt n) = Inr (n \<noteq> 0)"
| "py_truthy E (VFloat x) = Inr (x \<noteq> 0)"
| "py_truthy E (VStr s) = Inr (s \<noteq> [])"
| "py_truthy E (VList xs) = Inr (xs \<noteq> [])"
| "py_truthy E (VTuple xs) = Inr (xs \<noteq> [])"
| "py_truthy E (VDict kvs) = Inr (kvs \<noteq> [])"
| "py_truthy E (VObj c n) = py_bool E (VObj c n)"

fun type_name :: "pyval \<Rightarrow> string" where
  "type_name VNone = ''NoneType''"
| "type_name (VBool b) = ''bool''"
| "type_name (VInt n) = ''int''"
| "type_name (VFloat x) = ''float''"
| "type_name (VStr s) = ''str''"
| "type_name (VList xs) = ''list''"
| "type_name (VTuple xs) = ''tuple''"
| "type_name (VDict kvs) = ''dict''"
| "type_name (VObj c n) = c"

text \<open>\<open>str(v)\<close>: the string itself for a string, the library's answer otherwise.\<close>

definition str_value :: "pylib \<Rightarrow> pyval \<Rightarrow> lib_error + string" where
  "str_value E v = (case v of VStr s \<Rightarrow> Inr s | _ \<Rightarrow> py_str E v)"

definition format_value :: "pylib \<Rightarrow> pyval \<Rightarrow> string" where
  "format_value E v = (case v of VStr s \<Rightarrow> s | _ \<Rightarrow> py_format E v)"

text \<open>\<open>d.get(k, default)\<close> and \<open>d.get(k)\<close> on a dictionary.\<close>

definition dict_get_default :: "(string \<times> pyval) list \<Rightarrow> string \<Rightarrow> pyval \<Rightarrow> pyval" where
  "dict_get_default d k dflt = (case map_of d k of None \<Rightarrow> dflt | Some v \<Rightarrow> v)"

definition dict_get :: "(string \<times> pyval) list \<Rightarrow> string \<Rightarrow> pyval" where
  "dict_get d k = dict_get_default d k VNone"

definition opt_str :: "string option \<Rightarrow> pyval" where
  "opt_str s = (case s of None \<Rightarrow> VNone | Some t \<Rightarrow> VStr t)"

text \<open>
  What \<open>json.dumps\<close> accepts: \<open>None\<close>, scalars, lists, tuples and dictionaries of
  such values, but no object of a class it does not know.
\<close>

fun jsonable :: "pyval \<Rightarrow> bool" where
  "jsonable (VList xs) = list_all jsonable xs"
| "jsonable (VTuple xs) = list_all jsonable xs"
| "jsonable (VDict kvs) = list_all jsonable (map snd kvs)"
| "jsonable (VObj c n) = False"
| "jsonable v = True"

section \<open>The world the logger acts on\<close>

text \<open>
  One emitted span: its name and the attributes set on it, the last value set for a key
  winning. The tracing backend is used only through "start a span, set attributes, end it".
\<close>

record span =
  span_name :: string
  attributes :: "(string \<times> pyval) list"

definition set_attribute :: "string \<Rightarrow> pyval \<Rightarrow> span \<Rightarrow> span" where
  "set_attribute k v sp = sp\<lparr>attributes := AList.update k v (attributes sp)\<rparr>"

text \<open>
  A call made on a file that is appended to: \<open>open(path, 'a')\<close>, \<open>f.write(text)\<close>
  (the text without its line break) and the close on leaving the \<open>with\<close> block.
\<close>

datatype io_call = FileOpen string | FileWrite string string | FileClose string

text \<open>
  The files (a path holds the lines written to it, or \<open>None\<close> when it does not exist),
  the calls made on the files appended to, in the order in which they were made, the calls
  made on the console logger (level number and message), the spans handed to the tracing
  backend, the number of identifiers drawn and the number of clock readings.
\<close>

record world =
  files :: "string \<Rightarrow> string list option"
  io_calls :: "io_call list"
  console :: "(nat \<times> string) list"
  spans :: "span list"
  uuid_count :: nat
  clock :: nat

definition fresh_uuid :: "pylib \<Rightarrow> world \<Rightarrow> string \<times> world" where
  "fresh_uuid E w = (uuid4 E (uuid_count w), w\<lparr>uuid_count := Suc (uuid_count w)\<rparr>)"

definition utc_now :: "pylib \<Rightarrow> world \<Rightarrow> string \<times> world" where
  "utc_now E w = (utc_isoformat E (clock w), w\<lparr>clock := Suc (clock w)\<rparr>)"

definition time_now :: "pylib \<Rightarrow> world \<Rightarrow> real \<times> world" where
  "time_now E w = (time_time E (clock w), w\<lparr>clock := Suc (clock w)\<rparr>)"

definition console_log :: "nat \<Rightarrow> string \<Rightarrow> world \<Rightarrow> world" where
  "console_log levelno msg w = w\<lparr>console := console w @ [(levelno, msg)]\<rparr>"

definition LOG_DEBUG :: nat where "LOG_DEBUG = 10"
definition LOG_INFO :: nat where "LOG_INFO = 20"
definition LOG_WARNING :: nat where "LOG_WARNING = 30"
definition LOG_ERROR :: nat where "LOG_ERROR = 40"
definition LOG_CRITICAL :: nat where "LOG_CRITICAL = 50"

section \<open>The span bridge (\<open>alog/otel_exporter.py\<close>)\<close>

record otel_exporter =
  tracer :: "string option"

definition OTelExporter_init :: "pylib \<Rightarrow> string \<Rightarrow> string \<Rightarrow> otel_exporter" where
  "OTelExporter_init E service_name endpoint =
     (if \<not> otel_installed E then \<lparr>tracer = None\<rparr> else \<lparr>tracer = Some service_name\<rparr>)"

text \<open>
  The body of the \<open>try\<close> in \<open>emit_span\<close>: the value handed to \<open>set_attribute\<close>, or the
  exception that \<open>str\<close> or \<open>json.dumps\<close> raises.
\<close>

fun attribute_of :: "pylib \<Rightarrow> pyval \<Rightarrow> lib_error + pyval" where
  "attribute_of E (VStr s) = Inr (VStr s)"
| "attribute_of E (VInt n) = Inr (VInt n)"
| "attribute_of E (VFloat x) = Inr (VFloat x)"
| "attribute_of E (VBool b) = Inr (VBool b)"
| "attribute_of E (VList xs) = map_sum id VStr (py_str E (VList xs))"
| "attribute_of E (VTuple xs) = map_sum id VStr (py_str E (VTuple xs))"
| "attribute_of E (VDict kvs) = map_sum id VStr (json_dumps E True (VDict kvs))"
| "attribute_of E v = map_sum id VStr (py_str E v)"

definition error_marker :: "pyval \<Rightarrow> string" where
  "error_marker v = ''<error serializing value: '' @ type_name v @ ''>''"

text \<open>The \<open>try\<close> with its two handlers: \<open>repr\<close> first, the error marker last.\<close>

definition span_attribute :: "pylib \<Rightarrow> pyval \<Rightarrow> pyval" where
  "span_attribute E v =
     (case attribute_of E v of
        Inr a \<Rightarrow> a
      | Inl e \<Rightarrow>
          (case py_repr E v of
             Inr r \<Rightarrow> VStr r
           | Inl e' \<Rightarrow> VStr (error_marker v)))"

definition set_event_attribute :: "pylib \<Rightarrow> string \<times> pyval \<Rightarrow> span \<Rightarrow> span" where
  "set_event_attribute E kv sp =
     (if snd kv = VNone then sp else set_attribute (fst kv) (span_attribute E (snd kv)) sp)"

text \<open>
  \<open>emit_span\<close>: nothing without a tracer; otherwise the span is started (which may fail),
  filled, and ended when the \<open>with\<close> block is left.
\<close>

definition emit_span ::
  "pylib \<Rightarrow> otel_exporter \<Rightarrow> string \<Rightarrow> string \<Rightarrow> (string \<times> pyval) list \<Rightarrow> world
     \<Rightarrow> lib_error + world" where
  "emit_span E ex surface agent event w =
     (case tracer ex of
        None \<Rightarrow> Inr w
      | Some t \<Rightarrow>
          (let name = agent @ ''.'' @ surface
           in case start_span_error E name of
                Some e \<Rightarrow> Inl e
              | None \<Rightarrow>
                  (let sp0 = \<lparr>span_name = name, attributes = []\<rparr>;
                       sp1 = set_attribute ''surface'' (VStr surface) sp0;
                       sp2 = set_attribute ''agent'' (VStr agent) sp1;
                       sp3 = fold (set_event_attribute E) event sp2
                   in Inr (w\<lparr>spans := spans w @ [sp3]\<rparr>))))"

section \<open>The logger (\<open>alog/core.py\<close>)\<close>

record alogger =
  output_dir :: string
  level :: nat
  save_contextual_to_file :: bool
  operational_file :: string
  cognitive_file :: string
  contextual_file :: "string option"
  current_trace_id :: "string option"
  current_span_id :: "string option"
  enable_otel :: bool
  otel :: "otel_exporter option"

text \<open>\<open>os.path.join\<close> of a directory and a file name, and \<open>str.upper\<close> on ASCII letters.\<close>

definition path_join :: "string \<Rightarrow> string \<Rightarrow> string" where
  "path_join d f = (if d = [] then f else if last d = CHR ''/'' then d @ f else d @ ''/'' @ f)"

definition upper_char :: "char \<Rightarrow> char" where
  "upper_char c =
     (let n = (of_char c :: nat) in if 97 \<le> n \<and> n \<le> 122 then char_of (n - 32) else c)"

definition logging_level :: "string \<Rightarrow> nat" where
  "logging_level name =
     (let u = map upper_char name
      in if u = ''DEBUG'' then LOG_DEBUG
         else if u = ''INFO'' then LOG_INFO
         else if u = ''WARNING'' \<or> u = ''WARN'' then LOG_WARNING
         else if u = ''ERROR'' then LOG_ERROR
         else if u = ''CRITICAL'' \<or> u = ''FATAL'' then LOG_CRITICAL
         else if u = ''NOTSET'' then 0
         else LOG_INFO)"

text \<open>
  \<open>ALogger.__init__\<close>. Creating the directory and installing the console handler leave
  no trace in the world above.
\<close>

definition ALogger_init ::
  "pylib \<Rightarrow> string \<Rightarrow> string \<Rightarrow> bool \<Rightarrow> string \<Rightarrow> string \<Rightarrow> bool \<Rightarrow> alogger" where
  "ALogger_init E out_dir lvl en_otel otel_service_name otel_endpoint save_ctx =
     \<lparr>output_dir = out_dir,
      level = logging_level lvl,
      save_contextual_to_file = save_ctx,
      operational_file = path_join out_dir ''operational.jsonl'',
      cognitive_file = path_join out_dir ''cognitive.jsonl'',
      contextual_file = (if save_ctx then Some (path_join out_dir ''contextual.jsonl'') else None),
      current_trace_id = None,
      current_span_id = None,
      enable_otel = en_otel,
      otel = (if en_otel then Some (OTelExporter_init E otel_service_name otel_endpoint) else None)\<rparr>"

text \<open>
  \<open>_write_to_file\<close>. The body of its \<open>try\<close>, which raises or returns, and leaves
  every call it makes on the file in the world. \<open>open\<close> is called once; when it raises,
  nothing else happens. Opening for append creates a missing file. Then \<open>json.dumps\<close>
  builds the text, \<open>f.write\<close> writes it with a line break after it, and leaving the
  \<open>with\<close> block flushes and closes the file, also when the body has raised; an
  exception raised by the close is the one that leaves the block. The line is in the file
  only when both the write and the close have succeeded.
\<close>

definition file_lines :: "world \<Rightarrow> string \<Rightarrow> string list" where
  "file_lines w p = (case files w p of None \<Rightarrow> [] | Some ls \<Rightarrow> ls)"

definition append_json_line :: "pylib \<Rightarrow> string \<Rightarrow> pyval \<Rightarrow> world \<Rightarrow> lib_error \<times> world + world" where
  "append_json_line E filepath log_entry w =
     (let w0 = w\<lparr>io_calls := io_calls w @ [FileOpen filepath]\<rparr>
      in case open_append_error E filepath of
           Some e \<Rightarrow> Inl (e, w0)
         | None \<Rightarrow>
             (case json_dumps E False log_entry of
                Inl e \<Rightarrow>
                  (let w1 = w0\<lparr>files := (files w)(filepath \<mapsto> file_lines w filepath),
                               io_calls := io_calls w0 @ [FileClose filepath]\<rparr>
                   in case close_error E filepath of
                        Some e' \<Rightarrow> Inl (e', w1)
                      | None \<Rightarrow> Inl (e, w1))
              | Inr line \<Rightarrow>
                  (let w1 = w0\<lparr>io_calls :=
                                 io_calls w0 @ [FileWrite filepath line, FileClose filepath]\<rparr>;
                       torn = w1\<lparr>files := (files w)(filepath \<mapsto>
                                          file_lines w filepath @ torn_write E filepath line)\<rparr>
                   in case write_error E filepath line of
                        Some e \<Rightarrow>
                          (case close_error E filepath of
                             Some e' \<Rightarrow> Inl (e', torn)
                           | None \<Rightarrow> Inl (e, torn))
                      | None \<Rightarrow>
                          (case close_error E filepath of
                             Some e' \<Rightarrow> Inl (e', torn)
                           | None \<Rightarrow>
                               Inr (w1\<lparr>files := (files w)(filepath \<mapsto>
                                                   file_lines w filepath @ [line])\<rparr>)))))"

text \<open>
  The calls one append makes: one \<open>open\<close>; after it, unless it raised, the write if
  there is a text to write, and the close.
\<close>

definition append_calls :: "pylib \<Rightarrow> string \<Rightarrow> pyval \<Rightarrow> io_call list" where
  "append_calls E filepath log_entry =
     FileOpen filepath #
       (case open_append_error E filepath of
          Some e \<Rightarrow> []
        | None \<Rightarrow>
            (case json_dumps E False log_entry of
               Inl e \<Rightarrow> [FileClose filepath]
             | Inr line \<Rightarrow> [FileWrite filepath line, FileClose filepath]))"

definition write_to_file :: "pylib \<Rightarrow> string \<Rightarrow> pyval \<Rightarrow> world \<Rightarrow> world" where
  "write_to_file E filepath log_entry w =
     (case append_json_line E filepath log_entry w of
        Inr w' \<Rightarrow> w'
      | Inl (e, w') \<Rightarrow>
          console_log LOG_ERROR (''Failed to write to '' @ filepath @ '': '' @ err_msg e) w')"

text \<open>
  \<open>_read_file\<close>. The loop over the lines: blank lines are skipped, and the first line that
  does not parse ends the loop with the entries collected so far.
\<close>

fun parse_lines :: "pylib \<Rightarrow> string list \<Rightarrow> pyval list \<Rightarrow> lib_error option \<times> pyval list" where
  "parse_lines E [] logs = (None, logs)"
| "parse_lines E (l # ls) logs =
     (let line = strip l
      in if line \<noteq> [] then
           (case json_loads E line of
              Inl e \<Rightarrow> (Some e, logs)
            | Inr v \<Rightarrow> parse_lines E ls (logs @ [v]))
         else parse_lines E ls logs)"

definition read_file :: "pylib \<Rightarrow> string \<Rightarrow> world \<Rightarrow> pyval list \<times> world" where
  "read_file E filepath w =
     (case files w filepath of
        None \<Rightarrow> ([], w)
      | Some ls \<Rightarrow>
          (case open_read_error E filepath of
             Some e \<Rightarrow>
               ([], console_log LOG_ERROR (''Failed to read '' @ filepath @ '': '' @ err_msg e) w)
           | None \<Rightarrow>
               (case parse_lines E ls [] of
                  (None, logs) \<Rightarrow> (logs, w)
                | (Some e, logs) \<Rightarrow>
                    (logs,
                     console_log LOG_ERROR
                       (''Failed to read '' @ filepath @ '': '' @ err_msg e) w))))"

text \<open>
  \<open>record\<close>, in the order of its statements: the envelope is built
  (\<open>build_log_entry\<close>), written to the file of its surface, exported as a span and
  announced on the console. First the identifiers: without an explicit
  \<open>trace_id\<close> the retained one is used if there is a non-empty one (Python's \<open>or\<close>),
  a fresh one otherwise, and the result is retained.
\<close>

definition resolve_trace_id ::
  "pylib \<Rightarrow> alogger \<Rightarrow> string option \<Rightarrow> world \<Rightarrow> string \<times> alogger \<times> world" where
  "resolve_trace_id E lg trace_id w =
     (case trace_id of
        Some t \<Rightarrow> (t, lg, w)
      | None \<Rightarrow>
          (let (t, w') =
                 (case current_trace_id lg of
                    Some c \<Rightarrow> if c \<noteq> [] then (c, w) else fresh_uuid E w
                  | None \<Rightarrow> fresh_uuid E w)
           in (t, lg\<lparr>current_trace_id := Some t\<rparr>, w')))"

definition resolve_span_id :: "pylib \<Rightarrow> string option \<Rightarrow> world \<Rightarrow> string \<times> world" where
  "resolve_span_id E span_id w = (case span_id of Some s \<Rightarrow> (s, w) | None \<Rightarrow> fresh_uuid E w)"

text \<open>The envelope, a dictionary, and the reading of its fields.\<close>

definition log_entry_dict ::
  "string \<Rightarrow> string \<Rightarrow> string \<Rightarrow> string \<Rightarrow> string \<Rightarrow> string \<Rightarrow> string
     \<Rightarrow> (string \<times> pyval) list \<Rightarrow> pyval" where
  "log_entry_dict entry_id timestamp agent surface lvl trace_id span_id event =
     VDict [(''id'', VStr entry_id),
            (''timestamp'', VStr timestamp),
            (''agent'', VStr agent),
            (''surface'', VStr surface),
            (''level'', VStr lvl),
            (''trace_id'', VStr trace_id),
            (''span_id'', VStr span_id),
            (''event'', VDict event)]"

definition entry_field :: "pyval \<Rightarrow> string \<Rightarrow> pyval" where
  "entry_field entry k = (case entry of VDict d \<Rightarrow> dict_get d k | _ \<Rightarrow> VNone)"

definition event_field :: "pyval \<Rightarrow> string \<Rightarrow> pyval" where
  "event_field entry k = entry_field (entry_field entry ''event'') k"

text \<open>
  The file a surface is written to: the \<open>if\<close>/\<open>elif\<close> chain of \<open>record\<close>, with
  \<open>None\<close> where nothing is written.
\<close>

definition sink_file :: "alogger \<Rightarrow> string \<Rightarrow> string option" where
  "sink_file lg surface =
     (if surface = ''operational'' then Some (operational_file lg)
      else if surface = ''cognitive'' then Some (cognitive_file lg)
      else if surface = ''contextual'' then
        (case contextual_file lg of
           Some p \<Rightarrow> if p \<noteq> [] then Some p else None
         | None \<Rightarrow> None)
      else Some (operational_file lg))"

definition export_otel ::
  "pylib \<Rightarrow> alogger \<Rightarrow> string \<Rightarrow> string \<Rightarrow> (string \<times> pyval) list \<Rightarrow> world \<Rightarrow> world" where
  "export_otel E lg surface agent event w =
     (if enable_otel lg then
        (case otel lg of
           None \<Rightarrow> w
         | Some ex \<Rightarrow>
             (case emit_span E ex surface agent event w of
                Inr w' \<Rightarrow> w'
              | Inl e \<Rightarrow>
                  console_log LOG_WARNING (''[OTEL] Failed to emit span: '' @ err_msg e) w))
      else w)"

definition console_info ::
  "pylib \<Rightarrow> string \<Rightarrow> string \<Rightarrow> (string \<times> pyval) list \<Rightarrow> world \<Rightarrow> world" where
  "console_info E surface agent event w =
     (if surface = ''operational'' \<and>
         (dict_get event ''status'' = VStr ''start'' \<or>
          dict_get event ''status'' = VStr ''complete'' \<or>
          dict_get event ''status'' = VStr ''error'')
      then console_log LOG_INFO
             (agent @ ''.'' @ format_value E (dict_get_default event ''method'' (VStr ''unknown''))
                @ '' - '' @ format_value E (dict_get_default event ''status'' (VStr ''unknown''))) w
      else w)"

definition build_log_entry ::
  "pylib \<Rightarrow> alogger \<Rightarrow> string \<Rightarrow> string \<Rightarrow> (string \<times> pyval) list \<Rightarrow> string
     \<Rightarrow> string option \<Rightarrow> string option \<Rightarrow> world \<Rightarrow> pyval \<times> alogger \<times> world" where
  "build_log_entry E lg surface agent event lvl trace_id span_id w =
     (let (trace_id1, lg1, w1) = resolve_trace_id E lg trace_id w;
          (span_id1, w2) = resolve_span_id E span_id w1;
          (entry_id, w3) = fresh_uuid E w2;
          (timestamp, w4) = utc_now E w3
      in (log_entry_dict entry_id timestamp agent surface lvl trace_id1 span_id1 event, lg1, w4))"

definition record_envelope ::
  "pylib \<Rightarrow> alogger \<Rightarrow> string \<Rightarrow> string \<Rightarrow> (string \<times> pyval) list \<Rightarrow> string
     \<Rightarrow> string option \<Rightarrow> string option \<Rightarrow> world \<Rightarrow> alogger \<times> world" where
  "record_envelope E lg surface agent event lvl trace_id span_id w =
     (let (log_entry, lg1, w4) = build_log_entry E lg surface agent event lvl trace_id span_id w;
          w5 = (case sink_file lg1 surface of
                  None \<Rightarrow> w4
                | Some p \<Rightarrow> write_to_file E p log_entry w4);
          w6 = export_otel E lg1 surface agent event w5;
          w7 = console_info E surface agent event w6
      in (lg1, w7))"

text \<open>
  \<open>metadata or {}\<close>, for \<open>metadata: Optional[Dict[str, Any]]\<close>: \<open>None\<close> and the empty
  dictionary are false.
\<close>

definition or_empty_dict :: "(string \<times> pyval) list option \<Rightarrow> pyval" where
  "or_empty_dict metadata =
     (case metadata of None \<Rightarrow> VDict [] | Some d \<Rightarrow> if d \<noteq> [] then VDict d else VDict [])"

definition operational_event ::
  "string \<Rightarrow> string \<Rightarrow> pyval \<Rightarrow> pyval \<Rightarrow> pyval \<Rightarrow> pyval \<Rightarrow> pyval \<Rightarrow> pyval \<Rightarrow> pyval \<Rightarrow> pyval
     \<Rightarrow> (string \<times> pyval) list option \<Rightarrow> (string \<times> pyval) list" where
  "operational_event method status duration_sec tool_name tool_parameters result_summary
       error token_usage latency_ms caller metadata =
     [(''method'', VStr method),
      (''status'', VStr status),
      (''duration_sec'', duration_sec),
      (''tool_name'', tool_name),
      (''tool_parameters'', tool_parameters),
      (''result_summary'', result_summary),
      (''error'', error),
      (''token_usage'', token_usage),
      (''latency_ms'', latency_ms),
      (''caller'', caller),
      (''metadata'', or_empty_dict metadata)]"

definition record_operational ::
  "pylib \<Rightarrow> alogger \<Rightarrow> string \<Rightarrow> string \<Rightarrow> string \<Rightarrow> pyval \<Rightarrow> pyval \<Rightarrow> pyval \<Rightarrow> pyval \<Rightarrow> pyval
     \<Rightarrow> pyval \<Rightarrow> pyval \<Rightarrow> pyval \<Rightarrow> (string \<times> pyval) list option \<Rightarrow> string \<Rightarrow> string option
     \<Rightarrow> string option \<Rightarrow> world \<Rightarrow> alogger \<times> world" where
  "record_operational E lg agent method status duration_sec tool_name tool_parameters
       result_summary error token_usage latency_ms caller metadata lvl trace_id span_id w =
     record_envelope E lg ''operational'' agent
       (operational_event method status duration_sec tool_name tool_parameters result_summary
          error token_usage latency_ms caller metadata)
       lvl trace_id span_id w"

text \<open>The thought is cut after 2000 characters, with three dots appended.\<close>

definition truncate_thought :: "string option \<Rightarrow> string option" where
  "truncate_thought thought =
     (case thought of
        None \<Rightarrow> None
      | Some t \<Rightarrow> if t \<noteq> [] \<and> length t > 2000 then Some (take 2000 t @ ''...'') else Some t)"

definition cognitive_event ::
  "string option \<Rightarrow> pyval \<Rightarrow> pyval \<Rightarrow> pyval \<Rightarrow> pyval \<Rightarrow> pyval \<Rightarrow> pyval \<Rightarrow> pyval \<Rightarrow> pyval
     \<Rightarrow> pyval \<Rightarrow> (string \<times> pyval) list" where
  "cognitive_event thought reasoning_step plan reflection confidence goal model token_count
       prompt_excerpt completion_excerpt =
     [(''reasoning_step'', reasoning_step),
      (''thought'', opt_str (truncate_thought thought)),
      (''plan'', plan),
      (''reflection'', reflection),
      (''confidence'', confidence),
      (''goal'', goal),
      (''model'', model),
      (''token_count'', token_count),
      (''prompt_excerpt'', prompt_excerpt),
      (''completion_excerpt'', completion_excerpt)]"

definition record_cognitive ::
  "pylib \<Rightarrow> alogger \<Rightarrow> string \<Rightarrow> string option \<Rightarrow> pyval \<Rightarrow> pyval \<Rightarrow> pyval \<Rightarrow> pyval \<Rightarrow> pyval
     \<Rightarrow> pyval \<Rightarrow> pyval \<Rightarrow> pyval \<Rightarrow> pyval \<Rightarrow> string \<Rightarrow> string option \<Rightarrow> string option \<Rightarrow> world
     \<Rightarrow> alogger \<times> world" where
  "record_cognitive E lg agent thought reasoning_step plan reflection confidence goal model
       token_count prompt_excerpt completion_excerpt lvl trace_id span_id w =
     record_envelope E lg ''cognitive'' agent
       (cognitive_event thought reasoning_step plan reflection confidence goal model token_count
          prompt_excerpt completion_excerpt)
       lvl trace_id span_id w"

definition contextual_event ::
  "string \<Rightarrow> pyval \<Rightarrow> pyval \<Rightarrow> pyval \<Rightarrow> pyval \<Rightarrow> pyval \<Rightarrow> pyval \<Rightarrow> pyval \<Rightarrow> pyval \<Rightarrow> pyval
     \<Rightarrow> (string \<times> pyval) list option \<Rightarrow> (string \<times> pyval) list" where
  "contextual_event operation source_type source_name query retrieved_count retrieved_items
       provenance cache_hit write_value memory_state_hash metadata =
     [(''operation'', VStr operation),
      (''source_type'', source_type),
      (''source_name'', source_name),
      (''query'', query),
      (''retrieved_count'', retrieved_count),
      (''retrieved_items'', retrieved_items),
      (''provenance'', provenance),
      (''cache_hit'', cache_hit),
      (''write_value'', write_value),
      (''memory_state_hash'', memory_state_hash),
      (''metadata'', or_empty_dict metadata)]"

definition record_contextual ::
  "pylib \<Rightarrow> alogger \<Rightarrow> string \<Rightarrow> string \<Rightarrow> pyval \<Rightarrow> pyval \<Rightarrow> pyval \<Rightarrow> pyval \<Rightarrow> pyval \<Rightarrow> pyval
     \<Rightarrow> pyval \<Rightarrow> pyval \<Rightarrow> pyval \<Rightarrow> (string \<times> pyval) list option \<Rightarrow> string \<Rightarrow> string option
     \<Rightarrow> string option \<Rightarrow> world \<Rightarrow> alogger \<times> world" where
  "record_contextual E lg agent operation source_type source_name query retrieved_count
       retrieved_items provenance cache_hit write_value memory_state_hash metadata
       lvl trace_id span_id w =
     record_envelope E lg ''contextual'' agent
       (contextual_event operation source_type source_name query retrieved_count
          retrieved_items provenance cache_hit write_value memory_state_hash metadata)
       lvl trace_id span_id w"

text \<open>\<open>get_logs\<close>: the files are read in a fixed order, whatever the order of writing.\<close>

definition contextual_sink :: "alogger \<Rightarrow> string option" where
  "contextual_sink lg =
     (case contextual_file lg of Some p \<Rightarrow> if p \<noteq> [] then Some p else None | None \<Rightarrow> None)"

definition get_logs :: "pylib \<Rightarrow> alogger \<Rightarrow> string option \<Rightarrow> world \<Rightarrow> pyval list \<times> world" where
  "get_logs E lg surface w =
     (let (l1, w1) = (if surface = None \<or> surface = Some ''operational''
                      then read_file E (operational_file lg) w else ([], w));
          (l2, w2) = (if surface = None \<or> surface = Some ''cognitive''
                      then read_file E (cognitive_file lg) w1 else ([], w1));
          (l3, w3) = (if surface = None \<or> surface = Some ''contextual''
                      then (case contextual_sink lg of
                              Some p \<Rightarrow> read_file E p w2
                            | None \<Rightarrow> ([], w2))
                      else ([], w2))
      in (l1 @ l2 @ l3, w3))"

text \<open>
  Modelled from the spec: the repository has no operation that resets the trace context;
  the explicit reset of the specification is taken to put the retained identifier back to
  what \<open>__init__\<close> leaves there, \<open>None\<close>.
\<close>

definition reset_trace :: "alogger \<Rightarrow> alogger" where
  "reset_trace lg = lg\<lparr>current_trace_id := None\<rparr>"

section \<open>The instrumentation wrapper (\<open>alog/auto.py\<close>)\<close>

text \<open>
  The module's state: the global logger (\<open>None\<close> before \<open>init\<close>) and the world. A
  method takes its positional and keyword arguments and the state, and returns a value or
  raises an exception, leaving a state behind in both cases.
\<close>

record runtime =
  global_logger :: "alogger option"
  io :: world

type_synonym py_method =
  "pyval list \<Rightarrow> (string \<times> pyval) list \<Rightarrow> runtime \<Rightarrow> (pyexc + pyval) \<times> runtime"

text \<open>What an attribute access on the global logger raises while it is \<open>None\<close>.\<close>

definition attribute_error :: "string \<Rightarrow> pyexc" where
  "attribute_error name =
     PyExc True ''AttributeError''
       ([CHR 0x27] @ ''NoneType'' @ [CHR 0x27] @ '' object has no attribute '' @
        [CHR 0x27] @ name @ [CHR 0x27])"

definition args_metadata :: "pyval list \<Rightarrow> (string \<times> pyval) list \<Rightarrow> (string \<times> pyval) list" where
  "args_metadata args kwargs =
     [(''args_count'', VInt (int (length args))),
      (''kwargs_keys'', (if kwargs \<noteq> [] then VList (map (\<lambda>kv. VStr (fst kv)) kwargs) else VList []))]"

text \<open>
  \<open>str(result)[:100] + "..." if result and len(str(result)) > 100 else str(result)\<close>:
  first the truth test of the result, then, if it is true, \<open>str\<close> for the length, then
  \<open>str\<close> for the summary. Each of them may raise.
\<close>

definition result_summary_of :: "pylib \<Rightarrow> pyval \<Rightarrow> lib_error + string" where
  "result_summary_of E result =
     (case py_truthy E result of
        Inl e \<Rightarrow> Inl e
      | Inr truthy \<Rightarrow>
          if truthy then
            (case str_value E result of
               Inl e \<Rightarrow> Inl e
             | Inr s \<Rightarrow>
                 if length s > 100
                 then map_sum id (\<lambda>s'. take 100 s' @ ''...'') (str_value E result)
                 else str_value E result)
          else str_value E result)"

text \<open>
  The part of the \<open>try\<close> block after the original method has returned \<open>result\<close>: the
  \<open>complete\<close> event, then the extractor on a string result.
\<close>

definition after_return ::
  "pylib \<Rightarrow> string \<Rightarrow> string \<Rightarrow> real \<Rightarrow> pyval \<Rightarrow> runtime \<Rightarrow> (pyexc + pyval) \<times> runtime" where
  "after_return E agent_name method_name start_time result rt =
     (let (t, w) = time_now E (io rt);
          rt1 = rt\<lparr>io := w\<rparr>;
          duration = t - start_time
      in case global_logger rt1 of
           None \<Rightarrow> (Inl (attribute_error ''record_operational''), rt1)
         | Some lg \<Rightarrow>
             (case result_summary_of E result of
                Inl e \<Rightarrow> (Inl (raise_lib e), rt1)
              | Inr summary \<Rightarrow>
                  (let (lg2, w2) =
                         record_operational E lg agent_name method_name ''complete''
                           (VFloat duration) VNone VNone (VStr summary) VNone VNone VNone VNone
                           (Some [(''result_type'',
                                   VStr (if result \<noteq> VNone then type_name result else ''None''))])
                           ''INFO'' None None w;
                       rt2 = \<lparr>global_logger = Some lg2, io = w2\<rparr>
                   in case result of
                        VStr s \<Rightarrow>
                          (let (main_output, reasoning) = extract_reasoning_trace s
                           in case reasoning of
                                None \<Rightarrow> (Inr result, rt2)
                              | Some r \<Rightarrow>
                                  if r \<noteq> [] then
                                    (let (lg3, w3) =
                                           record_cognitive E lg2 agent_name (Some r) VNone VNone
                                             VNone VNone (VStr (''Execute '' @ method_name))
                                             (VStr ''agent_method'') VNone VNone VNone
                                             ''INFO'' None None w2
                                     in (Inr (VStr main_output),
                                         \<lparr>global_logger = Some lg3, io = w3\<rparr>))
                                  else (Inr result, rt2))
                      | _ \<Rightarrow> (Inr result, rt2))))"

text \<open>
  The handler \<open>except Exception as e\<close>: an exception that does not derive from
  \<open>Exception\<close> passes by it; any other one is logged and raised again by the bare
  \<open>raise\<close>.
\<close>

definition except_handler ::
  "pylib \<Rightarrow> string \<Rightarrow> string \<Rightarrow> real \<Rightarrow> pyval list \<Rightarrow> (string \<times> pyval) list \<Rightarrow> pyexc
     \<Rightarrow> runtime \<Rightarrow> (pyexc + pyval) \<times> runtime" where
  "except_handler E agent_name method_name start_time args kwargs e rt =
     (if derives_Exception e then
        (let (t, w) = time_now E (io rt);
             rt1 = rt\<lparr>io := w\<rparr>;
             duration = t - start_time;
             error_message = exc_type e @ '': '' @ exc_msg e
         in case global_logger rt1 of
              None \<Rightarrow> (Inl (attribute_error ''record_operational''), rt1)
            | Some lg \<Rightarrow>
                (let (lg2, w2) =
                       record_operational E lg agent_name method_name ''error''
                         (VFloat duration) VNone VNone VNone (VStr error_message) VNone VNone VNone
                         (Some ((''error_type'', VStr (exc_type e)) # args_metadata args kwargs))
                         ''ERROR'' None None w
                 in (Inl e, \<lparr>global_logger = Some lg2, io = w2\<rparr>)))
      else (Inl e, rt))"

text \<open>
  The wrapper before the \<open>try\<close>: the clock is read twice and the \<open>start\<close> event is
  recorded. The result is the start time.
\<close>

definition log_start ::
  "pylib \<Rightarrow> string \<Rightarrow> string \<Rightarrow> pyval list \<Rightarrow> (string \<times> pyval) list \<Rightarrow> runtime
     \<Rightarrow> (pyexc + real) \<times> runtime" where
  "log_start E agent_name method_name args kwargs rt =
     (let (start_time, w1) = time_now E (io rt);
          (timestamp, w2) = utc_now E w1;
          rt0 = rt\<lparr>io := w2\<rparr>
      in case global_logger rt0 of
           None \<Rightarrow> (Inl (attribute_error ''record_operational''), rt0)
         | Some lg \<Rightarrow>
             (let (lg1, w3) =
                    record_operational E lg agent_name method_name ''start''
                      VNone VNone VNone VNone VNone VNone VNone VNone
                      (Some (args_metadata args kwargs)) ''INFO'' None None w2
              in (Inr start_time, \<lparr>global_logger = Some lg1, io = w3\<rparr>)))"

definition logged_wrapper :: "pylib \<Rightarrow> py_method \<Rightarrow> string \<Rightarrow> string \<Rightarrow> py_method" where
  "logged_wrapper E original_method agent_name method_name args kwargs rt =
     (case log_start E agent_name method_name args kwargs rt of
        (Inl e, rt0) \<Rightarrow> (Inl e, rt0)
      | (Inr start_time, rt1) \<Rightarrow>
          (case original_method args kwargs rt1 of
             (Inl e, rt2) \<Rightarrow>
               except_handler E agent_name method_name start_time args kwargs e rt2
           | (Inr result, rt2) \<Rightarrow>
               (case after_return E agent_name method_name start_time result rt2 of
                  (Inl e, rt3) \<Rightarrow>
                    except_handler E agent_name method_name start_time args kwargs e rt3
                | (Inr v, rt3) \<Rightarrow> (Inr v, rt3))))"

section \<open>Instrumenting an agent (\<open>alog/auto.py\<close>)\<close>

text \<open>
  An object is the list of its attributes in the order of \<open>dir\<close>; an attribute is
  callable or plain data. Objects live in a store, by reference, since \<open>setattr\<close> changes
  the agent in place and the agent's reference is what \<open>instrument_agent\<close> returns. The
  two \<open>print\<close> calls write to standard output only and are left out.
\<close>

datatype attr = Callable py_method | Data pyval

type_synonym pyobj = "(string \<times> attr) list"

type_synonym store = "nat \<Rightarrow> pyobj"

definition dir_py :: "pyobj \<Rightarrow> string list" where
  "dir_py ob = map fst ob"

definition callable_attr :: "pyobj \<Rightarrow> string \<Rightarrow> bool" where
  "callable_attr ob name = (case map_of ob name of Some (Callable f) \<Rightarrow> True | _ \<Rightarrow> False)"

definition target_methods_of :: "pyobj \<Rightarrow> string list option \<Rightarrow> string list" where
  "target_methods_of ob methods =
     (case methods of
        None \<Rightarrow> filter (\<lambda>a. \<not> starts_with ''_'' a \<and> callable_attr ob a) (dir_py ob)
      | Some ms \<Rightarrow> filter (\<lambda>m. callable_attr ob m) ms)"

text \<open>One round of the wrapping loop: \<open>getattr\<close>, the wrapper, \<open>setattr\<close>.\<close>

definition wrap_method :: "pylib \<Rightarrow> nat \<Rightarrow> string \<Rightarrow> string \<Rightarrow> store \<Rightarrow> store" where
  "wrap_method E agent name method_name st =
     (case map_of (st agent) method_name of
        Some (Callable original_method) \<Rightarrow>
          st(agent := AList.update method_name
                        (Callable (logged_wrapper E original_method name method_name)) (st agent))
      | _ \<Rightarrow> st)"

definition instrument_agent ::
  "pylib \<Rightarrow> runtime \<Rightarrow> store \<Rightarrow> nat \<Rightarrow> string \<Rightarrow> string list option \<Rightarrow> pyexc + nat \<times> store" where
  "instrument_agent E rt st agent name methods =
     (case global_logger rt of
        None \<Rightarrow> Inl (PyExc True ''RuntimeError'' ''A-LOG not initialized. Call init() first.'')
      | Some lg \<Rightarrow>
          (let target_methods = target_methods_of (st agent) methods
           in if target_methods = [] then Inr (agent, st)
              else Inr (agent, fold (wrap_method E agent name) target_methods st)))"

section \<open>Sessions of record calls\<close>

text \<open>
  A single-writer session is a list of \<open>record\<close> calls run one after the other on one
  logger. \<open>run_calls\<close> returns the envelopes in the order of the calls, with the final
  logger and world.
\<close>

record rec_call =
  rc_surface :: string
  rc_agent :: string
  rc_event :: "(string \<times> pyval) list"
  rc_level :: string
  rc_trace_id :: "string option"
  rc_span_id :: "string option"

fun run_calls :: "pylib \<Rightarrow> alogger \<Rightarrow> rec_call list \<Rightarrow> world \<Rightarrow> pyval list \<times> alogger \<times> world" where
  "run_calls E lg [] w = ([], lg, w)"
| "run_calls E lg (c # cs) w =
     (let (entry, lg1, w4) =
            build_log_entry E lg (rc_surface c) (rc_agent c) (rc_event c) (rc_level c)
              (rc_trace_id c) (rc_span_id c) w;
          (lg', w') =
            record_envelope E lg (rc_surface c) (rc_agent c) (rc_event c) (rc_level c)
              (rc_trace_id c) (rc_span_id c) w;
          (entries, lg'', w'') = run_calls E lg' cs w'
      in (entry # entries, lg'', w''))"

text \<open>
  The file an envelope belongs to, by its surface; an envelope survives the files when its
  JSON line is not blank and loads back to the envelope.
\<close>

definition sink_of_entry :: "alogger \<Rightarrow> pyval \<Rightarrow> string option" where
  "sink_of_entry lg entry =
     (case entry_field entry ''surface'' of VStr s \<Rightarrow> sink_file lg s | _ \<Rightarrow> None)"

definition roundtrip :: "pylib \<Rightarrow> pyval \<Rightarrow> bool" where
  "roundtrip E entry =
     (case json_dumps E False entry of
        Inl e \<Rightarrow> False
      | Inr line \<Rightarrow> strip line \<noteq> [] \<and> json_loads E (strip line) = Inr entry)"

text \<open>Two loggers write to the same files.\<close>

definition same_sinks :: "alogger \<Rightarrow> alogger \<Rightarrow> bool" where
  "same_sinks lg lg' \<longleftrightarrow>
     operational_file lg' = operational_file lg \<and> cognitive_file lg' = cognitive_file lg \<and>
     contextual_file lg' = contextual_file lg"

section \<open>A library and a logger to run examples with\<close>

text \<open>
  A printer used for \<open>json.dumps\<close>, \<open>str\<close> and \<open>repr\<close> that shows the structure of a
  value; numbers are printed as their type only. It tells apart the envelopes of the
  examples below, which is all they need.
\<close>

fun toy_json :: "pyval \<Rightarrow> string" where
  "toy_json VNone = ''null''"
| "toy_json (VBool b) = (if b then ''true'' else ''false'')"
| "toy_json (VInt n) = ''<int>''"
| "toy_json (VFloat x) = ''<float>''"
| "toy_json (VStr s) = [CHR 0x22] @ s @ [CHR 0x22]"
| "toy_json (VList xs) = ''['' @ concat (map (\<lambda>x. toy_json x @ '','') xs) @ '']''"
| "toy_json (VTuple xs) = ''['' @ concat (map (\<lambda>x. toy_json x @ '','') xs) @ '']''"
| "toy_json (VDict kvs) =
     ''{'' @ concat (map (\<lambda>kv. fst kv @ '':'' @ toy_json (snd kv) @ '','') kvs) @ ''}''"
| "toy_json (VObj c n) = ''<'' @ c @ '' object>''"

definition toy_loads :: "pyval list \<Rightarrow> string \<Rightarrow> lib_error + pyval" where
  "toy_loads known line =
     (case find (\<lambda>v. toy_json v = line) known of
        Some v \<Rightarrow> Inr v
      | None \<Rightarrow> Inl (LibError ''JSONDecodeError'' ''Expecting value''))"

text \<open>
  The example library: identifiers \<open>uuid-\<close>, \<open>uuid-i\<close>, \<open>uuid-ii\<close> and so on, a clock
  that counts its readings, \<open>json.dumps\<close> that refuses objects of unknown classes,
  \<open>json.loads\<close> that knows the given values, and no failing file or span.
\<close>

definition demo_lib :: "pyval list \<Rightarrow> pylib" where
  "demo_lib known =
     \<lparr>uuid4 = (\<lambda>n. ''uuid-'' @ replicate n (CHR ''i'')),
      utc_isoformat = (\<lambda>n. ''T'' @ replicate n (CHR ''+'')),
      time_time = real,
      json_dumps = (\<lambda>ascii v. if jsonable v then Inr (toy_json v)
                       else Inl (LibError ''TypeError'' ''Object is not JSON serializable'')),
      json_loads = toy_loads known,
      py_str = (\<lambda>v. Inr (toy_json v)),
      py_repr = (\<lambda>v. Inr (toy_json v)),
      py_format = toy_json,
      py_bool = (\<lambda>v. Inr True),
      open_append_error = (\<lambda>p. None),
      write_error = (\<lambda>p text. None),
      close_error = (\<lambda>p. None),
      torn_write = (\<lambda>p text. []),
      open_read_error = (\<lambda>p. None),
      start_span_error = (\<lambda>n. None),
      otel_installed = True\<rparr>"

definition demo_logger :: alogger where
  "demo_logger =
     ALogger_init (demo_lib []) ''logs'' ''INFO'' False ''A-LOG-Agent''
       ''http://localhost:4317'' True"

definition empty_world :: world where
  "empty_world =
     \<lparr>files = (\<lambda>p. None), io_calls = [], console = [], spans = [], uuid_count = 0, clock = 0\<rparr>"

text \<open>
  The envelope of the first \<open>record\<close> call on the example logger in the empty world,
  for the surface \<open>audit\<close>; and three libraries with a failing sink: in the first every
  file refuses to be opened for appending, in the second every write fails on a full
  disk without leaving anything in the file, in the third the close fails after half of
  the line has reached the file.
\<close>

definition audit_entry :: pyval where
  "audit_entry =
     VDict [(''id'', VStr ''uuid-ii''), (''timestamp'', VStr ''T''), (''agent'', VStr ''agent''),
            (''surface'', VStr ''audit''), (''level'', VStr ''INFO''), (''trace_id'', VStr ''uuid-''),
            (''span_id'', VStr ''uuid-i''), (''event'', VDict [(''k'', VInt 1)])]"

definition failing_lib :: pylib where
  "failing_lib =
     (demo_lib [])\<lparr>open_append_error := (\<lambda>p. Some (LibError ''OSError'' ''No space left on device''))\<rparr>"

definition full_disk_lib :: pylib where
  "full_disk_lib =
     (demo_lib [])\<lparr>write_error :=
                     (\<lambda>p text. Some (LibError ''OSError'' ''No space left on device''))\<rparr>"

definition failing_close_lib :: pylib where
  "failing_close_lib =
     (demo_lib [])\<lparr>close_error := (\<lambda>p. Some (LibError ''OSError'' ''Input/output error'')),
                   torn_write := (\<lambda>p text. [take (length text div 2) text])\<rparr>"

text \<open>
  An exporter with a tracer, and a metadata dictionary holding an object that
  \<open>json.dumps\<close> refuses.
\<close>

definition demo_exporter :: otel_exporter where
  "demo_exporter = OTelExporter_init (demo_lib []) ''A-LOG-Agent'' ''http://localhost:4317''"

definition socket_metadata :: pyval where
  "socket_metadata = VDict [(''handle'', VObj ''Socket'' 1)]"

text \<open>
  A method that returns \<open>None\<close>, an object whose only callable attribute is private,
  a store in which every reference denotes that object, and the module's state after
  \<open>init\<close>.
\<close>

definition idle_method :: py_method where
  "idle_method args kwargs rt = (Inr VNone, rt)"

definition plain_object :: pyobj where
  "plain_object = [(''_helper'', Callable idle_method), (''name'', Data (VStr ''plain''))]"

definition demo_store :: store where
  "demo_store = (\<lambda>r. plain_object)"

definition demo_runtime :: runtime where
  "demo_runtime = \<lparr>global_logger = Some demo_logger, io = empty_world\<rparr>"

text \<open>
  A session of two calls, a cognitive one followed by an operational one, and the two
  envelopes it builds on the example logger in the empty world.
\<close>

definition two_calls :: "rec_call list" where
  "two_calls =
     [\<lparr>rc_surface = ''cognitive'', rc_agent = ''agent'', rc_event = [(''thought'', VStr ''plan'')],
       rc_level = ''INFO'', rc_trace_id = None, rc_span_id = None\<rparr>,
      \<lparr>rc_surface = ''operational'', rc_agent = ''agent'', rc_event = [(''status'', VStr ''start'')],
       rc_level = ''INFO'', rc_trace_id = None, rc_span_id = None\<rparr>]"

definition thought_entry :: pyval where
  "thought_entry =
     VDict [(''id'', VStr ''uuid-ii''), (''timestamp'', VStr ''T''), (''agent'', VStr ''agent''),
            (''surface'', VStr ''cognitive''), (''level'', VStr ''INFO''),
            (''trace_id'', VStr ''uuid-''), (''span_id'', VStr ''uuid-i''),
            (''event'', VDict [(''thought'', VStr ''plan'')])]"

definition start_entry :: pyval where
  "start_entry =
     VDict [(''id'', VStr ''uuid-iiii''), (''timestamp'', VStr ''T+''), (''agent'', VStr ''agent''),
            (''surface'', VStr ''operational''), (''level'', VStr ''INFO''),
            (''trace_id'', VStr ''uuid-''), (''span_id'', VStr ''uuid-iii''),
            (''event'', VDict [(''status'', VStr ''start'')])]"

text \<open>
  A text whose marker pair encloses blanks only, and four methods to wrap: one interrupted
  from the keyboard, one raising \<open>ValueError\<close>, one returning the example of the
  specification, one returning the text with the blank reasoning.
\<close>

definition blank_trace :: string where
  "blank_trace = ''ANSWER===REASONING_TRACE_START===  ===REASONING_TRACE_END===''"

definition interrupted_method :: py_method where
  "interrupted_method args kwargs rt = (Inl (PyExc False ''KeyboardInterrupt'' []), rt)"

definition failing_method :: py_method where
  "failing_method args kwargs rt = (Inl (PyExc True ''ValueError'' ''bad input''), rt)"

definition answering_method :: py_method where
  "answering_method args kwargs rt = (Inr (VStr answer_with_trace), rt)"

definition blank_trace_method :: py_method where
  "blank_trace_method args kwargs rt = (Inr (VStr blank_trace), rt)"

text \<open>
  A method returning a data frame, and two libraries for it: in the first the truth test
  of an object raises, as \<open>bool\<close> of a data frame does; in the second \<open>str\<close> of
  anything but a string raises.
\<close>

definition frame_method :: py_method where
  "frame_method args kwargs rt = (Inr (VObj ''DataFrame'' 1), rt)"

definition ambiguous_lib :: pylib where
  "ambiguous_lib =
     (demo_lib [])\<lparr>py_bool :=
                     (\<lambda>v. Inl (LibError ''ValueError''
                                  ''The truth value of a DataFrame is ambiguous''))\<rparr>"

definition unprintable_lib :: pylib where
  "unprintable_lib =
     (demo_lib [])\<lparr>py_str := (\<lambda>v. Inl (LibError ''RuntimeError'' ''cannot print''))\<rparr>"




section \<open>Properties of the extractor\<close>

subsection \<open>The search finds the first occurrence\<close>

lemma starts_with_iff: "starts_with p s \<longleftrightarrow> occurs_at p s 0"
  by (induction p s rule: starts_with.induct) (auto simp: occurs_at_def)

lemma occurs_at_Cons_Suc: "occurs_at p (c # cs) (Suc i) \<longleftrightarrow> occurs_at p cs i"
  by (simp add: occurs_at_def)

lemma occurs_at_Nil: "occurs_at p [] i \<longleftrightarrow> p = [] \<and> i = 0"
  by (auto simp: occurs_at_def)

lemma str_find_None: "str_find p s = None \<longleftrightarrow> (\<forall>i. \<not> occurs_at p s i)"
proof (induction s)
  case Nil
  show ?case by (auto simp: starts_with_iff occurs_at_Nil)
next
  case (Cons c cs)
  show ?case
  proof
    assume a: "str_find p (c # cs) = None"
    then have n0: "\<not> occurs_at p (c # cs) 0" and r: "str_find p cs = None"
      by (auto simp: starts_with_iff split: if_splits)
    show "\<forall>i. \<not> occurs_at p (c # cs) i"
    proof
      fix i show "\<not> occurs_at p (c # cs) i"
        using n0 r Cons.IH by (cases i) (auto simp: occurs_at_Cons_Suc)
    qed
  next
    assume a: "\<forall>i. \<not> occurs_at p (c # cs) i"
    then have "\<forall>i. \<not> occurs_at p cs i" using occurs_at_Cons_Suc by blast
    with a Cons.IH show "str_find p (c # cs) = None"
      by (simp add: starts_with_iff)
  qed
qed

lemma str_find_Some:
  "str_find p s = Some i \<longleftrightarrow> occurs_at p s i \<and> (\<forall>j<i. \<not> occurs_at p s j)"
proof (induction s arbitrary: i)
  case Nil
  show ?case by (auto simp: starts_with_iff occurs_at_Nil)
next
  case (Cons c cs)
  show ?case
  proof (cases "occurs_at p (c # cs) 0")
    case True
    then show ?thesis
      by (cases i) (auto simp: starts_with_iff)
  next
    case False
    show ?thesis
    proof (cases i)
      case 0
      with False show ?thesis by (auto simp: starts_with_iff)
    next
      case (Suc n)
      have "(\<forall>j<Suc n. \<not> occurs_at p (c # cs) j) \<longleftrightarrow> (\<forall>j<n. \<not> occurs_at p cs j)"
        using False by (auto simp: less_Suc_eq_0_disj occurs_at_Cons_Suc)
      with False Suc Cons.IH [of n] show ?thesis
        by (auto simp: starts_with_iff occurs_at_Cons_Suc)
    qed
  qed
qed

lemma first_occurrence_iff:
  "first_occurrence p s i \<longleftrightarrow> occurs_at p s i \<and> (\<forall>j<i. \<not> occurs_at p s j)"
  by (auto simp: first_occurrence_def list_all_iff)

lemma str_find_first: "str_find p s = Some i \<longleftrightarrow> first_occurrence p s i"
  by (simp add: str_find_Some first_occurrence_iff)

lemma occurs_at_bound: "occurs_at p s i \<Longrightarrow> i + length p \<le> length s"
  by (simp add: occurs_at_def)

lemma occurs_at_drop_iff:
  "n \<le> length s \<Longrightarrow> occurs_at p (drop n s) k \<longleftrightarrow> occurs_at p s (n + k)"
  by (auto simp: occurs_at_def add.commute)

lemma occurs_at_take: "occurs_at p (take m s) i \<Longrightarrow> occurs_at p s i"
proof -
  assume a: "occurs_at p (take m s) i"
  then have b: "i + length p \<le> min (length s) m" and t: "take (length p) (drop i (take m s)) = p"
    by (auto simp: occurs_at_def)
  have "take (length p) (drop i (take m s)) = take (length p) (drop i s)"
    using b by (simp add: drop_take min_def split: if_splits)
  with t b show ?thesis by (simp add: occurs_at_def)
qed

lemma marker_pair_iff:
  "marker_pair s \<longleftrightarrow>
     (\<exists>i j. occurs_at TRACE_START s i \<and> occurs_at TRACE_END s j \<and> i + length TRACE_START \<le> j)"
proof
  assume "marker_pair s"
  then show "\<exists>i j. occurs_at TRACE_START s i \<and> occurs_at TRACE_END s j \<and> i + length TRACE_START \<le> j"
    unfolding marker_pair_def list_ex_iff by force
next
  assume "\<exists>i j. occurs_at TRACE_START s i \<and> occurs_at TRACE_END s j \<and> i + length TRACE_START \<le> j"
  then obtain i j where s: "occurs_at TRACE_START s i" and e: "occurs_at TRACE_END s j"
    and le: "i + length TRACE_START \<le> j" by blast
  from s have "i < Suc (length s)" by (simp add: occurs_at_def)
  moreover from e have "j < Suc (length s)" by (simp add: occurs_at_def)
  ultimately show "marker_pair s"
    unfolding marker_pair_def list_ex_iff using s e le
    by (metis atLeastLessThan_iff set_upt zero_le)
qed

lemma pattern_search_None: "pattern_search s = None \<longleftrightarrow> \<not> marker_pair s"
proof
  assume n: "pattern_search s = None"
  show "\<not> marker_pair s"
  proof
    assume "marker_pair s"
    then obtain i j where s: "occurs_at TRACE_START s i" and e: "occurs_at TRACE_END s j"
      and le: "i + length TRACE_START \<le> j" by (auto simp: marker_pair_iff)
    from s obtain i0 where f: "str_find TRACE_START s = Some i0"
      using str_find_None by (cases "str_find TRACE_START s") auto
    then have o0: "occurs_at TRACE_START s i0" and m: "\<forall>j<i0. \<not> occurs_at TRACE_START s j"
      by (auto simp: str_find_Some)
    from m s have "i0 \<le> i" by (meson not_le)
    with le have le0: "i0 + length TRACE_START \<le> j" by simp
    have b: "i0 + length TRACE_START \<le> length s" using o0 by (rule occurs_at_bound)
    have "occurs_at TRACE_END (drop (i0 + length TRACE_START) s) (j - (i0 + length TRACE_START))"
      using e le0 b by (simp add: occurs_at_drop_iff)
    then have "str_find TRACE_END (drop (i0 + length TRACE_START) s) \<noteq> None"
      using str_find_None by blast
    with n f show False by (auto simp: pattern_search_def Let_def split: option.splits)
  qed
next
  assume nm: "\<not> marker_pair s"
  show "pattern_search s = None"
  proof (rule ccontr)
    assume "pattern_search s \<noteq> None"
    then obtain i k where f: "str_find TRACE_START s = Some i"
      and g: "str_find TRACE_END (drop (i + length TRACE_START) s) = Some k"
      by (auto simp: pattern_search_def Let_def split: option.splits)
    from f have o: "occurs_at TRACE_START s i" by (simp add: str_find_Some)
    then have b: "i + length TRACE_START \<le> length s" by (rule occurs_at_bound)
    from g have "occurs_at TRACE_END (drop (i + length TRACE_START) s) k" by (simp add: str_find_Some)
    with b have "occurs_at TRACE_END s (i + length TRACE_START + k)" by (simp add: occurs_at_drop_iff)
    with o have "marker_pair s" unfolding marker_pair_iff
      by (meson le_add1)
    with nm show False by simp
  qed
qed


subsection \<open>Trimming\<close>

lemma lstrip_head: "lstrip s = [] \<or> \<not> is_space (hd (lstrip s))"
  unfolding lstrip_def by (metis hd_dropWhile)

lemma rstrip_last: "rstrip s = [] \<or> \<not> is_space (last (rstrip s))"
  unfolding rstrip_def by (metis hd_dropWhile last_rev rev_is_Nil_conv)

lemma rstrip_head: "rstrip s \<noteq> [] \<Longrightarrow> hd (rstrip s) = hd s"
proof -
  assume a: "rstrip s \<noteq> []"
  have "rev s = takeWhile is_space (rev s) @ dropWhile is_space (rev s)" by simp
  then have "s = rstrip s @ rev (takeWhile is_space (rev s))"
    unfolding rstrip_def by (metis rev_append rev_rev_ident)
  with a show ?thesis by (metis hd_append2)
qed

lemma lstrip_id: "s = [] \<or> \<not> is_space (hd s) \<Longrightarrow> lstrip s = s"
  unfolding lstrip_def by (cases s) auto

lemma rstrip_id: "s = [] \<or> \<not> is_space (last s) \<Longrightarrow> rstrip s = s"
  unfolding rstrip_def by (cases s rule: rev_cases) auto

lemma strip_strip: "strip (strip s) = strip s"
proof -
  have h: "strip s = [] \<or> \<not> is_space (hd (strip s))"
    unfolding strip_def using lstrip_head [of s] rstrip_head [of "lstrip s"]
    by (cases "rstrip (lstrip s) = []") (auto simp: rstrip_def)
  have l: "strip s = [] \<or> \<not> is_space (last (strip s))"
    unfolding strip_def by (rule rstrip_last)
  have "lstrip (strip s) = strip s" using h by (rule lstrip_id)
  moreover have "rstrip (strip s) = strip s" using l by (rule rstrip_id)
  ultimately show ?thesis by (simp add: strip_def [of "strip s"])
qed

lemma lstrip_drop: "\<exists>n\<le>length s. lstrip s = drop n s"
  unfolding lstrip_def by (metis dropWhile_eq_drop length_takeWhile_le)

lemma rstrip_take: "\<exists>m. rstrip s = take m s"
proof -
  have "rev s = takeWhile is_space (rev s) @ dropWhile is_space (rev s)" by simp
  then have "s = rstrip s @ rev (takeWhile is_space (rev s))"
    unfolding rstrip_def by (metis rev_append rev_rev_ident)
  then show ?thesis by (metis append_eq_conv_conj)
qed

lemma occurs_at_strip: "occurs_at p (strip s) i \<Longrightarrow> \<exists>n. occurs_at p s (n + i)"
proof -
  assume a: "occurs_at p (strip s) i"
  obtain n where n: "n \<le> length s" "lstrip s = drop n s" using lstrip_drop by blast
  obtain m where m: "rstrip (lstrip s) = take m (lstrip s)" using rstrip_take by blast
  from a m have "occurs_at p (lstrip s) i" unfolding strip_def by (metis occurs_at_take)
  with n show ?thesis by (auto simp: occurs_at_drop_iff)
qed

lemma marker_pair_strip: "marker_pair (strip s) \<Longrightarrow> marker_pair s"
proof -
  assume "marker_pair (strip s)"
  then obtain i j where a: "occurs_at TRACE_START (strip s) i" "occurs_at TRACE_END (strip s) j"
     and le: "i + length TRACE_START \<le> j" by (auto simp: marker_pair_iff)
  obtain n where n: "n \<le> length s" "lstrip s = drop n s" using lstrip_drop by blast
  obtain m where m: "rstrip (lstrip s) = take m (lstrip s)" using rstrip_take by blast
  from a m have "occurs_at TRACE_START (lstrip s) i" "occurs_at TRACE_END (lstrip s) j"
    unfolding strip_def by (metis occurs_at_take)+
  with n have "occurs_at TRACE_START s (n + i)" "occurs_at TRACE_END s (n + j)"
    by (auto simp: occurs_at_drop_iff)
  with le show ?thesis unfolding marker_pair_iff
    by (metis add.assoc add_le_cancel_left)
qed

lemma fst_extract_stripped: "strip (fst (extract_reasoning_trace t)) = fst (extract_reasoning_trace t)"
  by (auto simp: extract_reasoning_trace_def Let_def strip_strip split: option.splits)


lemmas extract_eval =
  extract_reasoning_trace_def pattern_search_def TRACE_START_def TRACE_END_def
  strip_def lstrip_def rstrip_def is_space_def
  answer_with_trace_def two_traces_def padded_text_def

subsection \<open>What the extractor returns\<close>

text \<open>
  Claim C4. For every string: if no start marker is followed by an end marker, the
  extractor returns the trimmed text and no reasoning. Otherwise there are a first start
  marker and a first end marker after it, the reasoning is the trimmed text strictly
  between the two, and the main text is the trimmed concatenation of what stands before
  the start marker and what stands after the end marker; whatever follows that end marker,
  further marker pairs included, is kept as it is.
\<close>

theorem extract_reasoning_trace_spec:
  "(\<not> marker_pair t \<longrightarrow> extract_reasoning_trace t = (strip t, None)) \<and>
   (marker_pair t \<longrightarrow>
      (\<exists>i k. first_occurrence TRACE_START t i \<and>
             first_occurrence TRACE_END (drop (i + length TRACE_START) t) k)) \<and>
   (\<forall>i k. first_occurrence TRACE_START t i \<and>
           first_occurrence TRACE_END (drop (i + length TRACE_START) t) k \<longrightarrow>
      extract_reasoning_trace t =
        (strip (take i t @ drop (i + length TRACE_START + k + length TRACE_END) t),
         Some (strip (take k (drop (i + length TRACE_START) t)))))"
proof (intro conjI impI allI)
  assume "\<not> marker_pair t"
  then have "pattern_search t = None" by (simp add: pattern_search_None)
  then show "extract_reasoning_trace t = (strip t, None)"
    by (simp add: extract_reasoning_trace_def)
next
  assume "marker_pair t"
  then have "pattern_search t \<noteq> None" by (simp add: pattern_search_None)
  then show "\<exists>i k. first_occurrence TRACE_START t i \<and>
             first_occurrence TRACE_END (drop (i + length TRACE_START) t) k"
    by (auto simp: pattern_search_def Let_def str_find_first split: option.splits)
next
  fix i k
  assume "first_occurrence TRACE_START t i \<and>
           first_occurrence TRACE_END (drop (i + length TRACE_START) t) k"
  then have "str_find TRACE_START t = Some i"
    and "str_find TRACE_END (drop (i + length TRACE_START) t) = Some k"
    by (simp_all add: str_find_first)
  then show "extract_reasoning_trace t =
        (strip (take i t @ drop (i + length TRACE_START + k + length TRACE_END) t),
         Some (strip (take k (drop (i + length TRACE_START) t))))"
    by (simp add: extract_reasoning_trace_def pattern_search_def Let_def)
qed

theorem extract_reasoning_trace_spec_witness:
  "marker_pair answer_with_trace \<and>
   first_occurrence TRACE_START answer_with_trace 6 \<and>
   first_occurrence TRACE_END (drop (6 + length TRACE_START) answer_with_trace) 1 \<and>
   extract_reasoning_trace answer_with_trace = (''ANSWER'', Some ''R'') \<and>
   \<not> marker_pair padded_text \<and>
   extract_reasoning_trace padded_text = (''plain text'', None)"
proof -
  have m: "marker_pair answer_with_trace"
    by code_simp
  have s: "first_occurrence TRACE_START answer_with_trace 6"
    by code_simp
  have e: "first_occurrence TRACE_END (drop (6 + length TRACE_START) answer_with_trace) 1"
    by code_simp
  have n: "\<not> marker_pair padded_text"
    by code_simp
  from extract_reasoning_trace_spec [of answer_with_trace] m
  have "\<exists>i k. first_occurrence TRACE_START answer_with_trace i \<and>
             first_occurrence TRACE_END (drop (i + length TRACE_START) answer_with_trace) k"
    by blast
  from extract_reasoning_trace_spec [of answer_with_trace] s e
  have "extract_reasoning_trace answer_with_trace =
          (strip (take 6 answer_with_trace @ drop (6 + length TRACE_START + 1 + length TRACE_END) answer_with_trace),
           Some (strip (take 1 (drop (6 + length TRACE_START) answer_with_trace))))"
    by blast
  then have a: "extract_reasoning_trace answer_with_trace = (''ANSWER'', Some ''R'')"
    by (simp add: extract_eval)
  from extract_reasoning_trace_spec [of padded_text] n
  have "extract_reasoning_trace padded_text = (strip padded_text, None)"
    by blast
  then have b: "extract_reasoning_trace padded_text = (''plain text'', None)"
    by (simp add: extract_eval)
  from m s e a n b show ?thesis by blast
qed

subsection \<open>Extracting twice\<close>

text \<open>
  Claim C5, as stated (the extractor applied to the main text it returned gives that text
  back with no reasoning), fails on a text with two marker pairs: the main text of the
  first application still holds the second pair, and the second application takes it out.
\<close>

theorem extract_idempotent_counterexample:
  "fst (extract_reasoning_trace two_traces) = ''A===REASONING_TRACE_START===y===REASONING_TRACE_END==='' \<and>
   extract_reasoning_trace (fst (extract_reasoning_trace two_traces)) = (''A'', Some ''y'') \<and>
   extract_reasoning_trace (fst (extract_reasoning_trace two_traces))
     \<noteq> (fst (extract_reasoning_trace two_traces), None)"
  by (simp add: extract_eval)

text \<open>
  Claim C5, amended. For every string, if the main text the extractor returns holds no
  start marker followed by an end marker, then the extractor applied to that main text
  returns it unchanged with no reasoning; and this is the case whenever the original text
  holds no such pair.
\<close>

theorem extract_idempotent_without_pair:
  "(\<not> marker_pair (fst (extract_reasoning_trace t)) \<longrightarrow>
      extract_reasoning_trace (fst (extract_reasoning_trace t))
        = (fst (extract_reasoning_trace t), None)) \<and>
   (\<not> marker_pair t \<longrightarrow> \<not> marker_pair (fst (extract_reasoning_trace t)))"
proof (intro conjI impI)
  assume "\<not> marker_pair (fst (extract_reasoning_trace t))"
  then have "pattern_search (fst (extract_reasoning_trace t)) = None"
    by (simp add: pattern_search_None)
  then have "extract_reasoning_trace (fst (extract_reasoning_trace t))
               = (strip (fst (extract_reasoning_trace t)), None)"
    by (simp add: extract_reasoning_trace_def)
  then show "extract_reasoning_trace (fst (extract_reasoning_trace t))
               = (fst (extract_reasoning_trace t), None)"
    by (simp add: fst_extract_stripped)
next
  assume n: "\<not> marker_pair t"
  then have "pattern_search t = None" by (simp add: pattern_search_None)
  then have "fst (extract_reasoning_trace t) = strip t"
    by (simp add: extract_reasoning_trace_def)
  with n show "\<not> marker_pair (fst (extract_reasoning_trace t))"
    using marker_pair_strip by auto
qed

theorem extract_idempotent_without_pair_witness:
  "\<not> marker_pair padded_text \<and>
   \<not> marker_pair (fst (extract_reasoning_trace padded_text)) \<and>
   extract_reasoning_trace (fst (extract_reasoning_trace padded_text))
     = (''plain text'', None)"
proof -
  have n: "\<not> marker_pair padded_text"
    by code_simp
  have f: "fst (extract_reasoning_trace padded_text) = ''plain text''"
    by (simp add: extract_eval)
  from extract_idempotent_without_pair [of padded_text] n
  have m: "\<not> marker_pair (fst (extract_reasoning_trace padded_text))"
    by blast
  with extract_idempotent_without_pair [of padded_text]
  have "extract_reasoning_trace (fst (extract_reasoning_trace padded_text))
          = (fst (extract_reasoning_trace padded_text), None)"
    by blast
  with n m f show ?thesis by simp
qed

section \<open>Properties of the logger\<close>

subsection \<open>What one \<open>record\<close> call does to the files, the console and the logger\<close>

lemma files_console_log [simp]: "files (console_log n m w) = files w"
  by (simp add: console_log_def)

lemma console_console_log [simp]: "console (console_log n m w) = console w @ [(n, m)]"
  by (simp add: console_log_def)

lemma spans_console_log [simp]: "spans (console_log n m w) = spans w"
  by (simp add: console_log_def)

lemma files_fresh_uuid [simp]: "files (snd (fresh_uuid E w)) = files w"
  by (simp add: fresh_uuid_def)

lemma files_utc_now [simp]: "files (snd (utc_now E w)) = files w"
  by (simp add: utc_now_def)

lemma files_time_now [simp]: "files (snd (time_now E w)) = files w"
  by (simp add: time_now_def)

lemma files_emit_span: "emit_span E ex s a ev w = Inr w' \<Longrightarrow> files w' = files w"
  by (auto simp: emit_span_def Let_def split: option.splits)

lemma files_export_otel [simp]: "files (export_otel E lg s a ev w) = files w"
  by (auto simp: export_otel_def split: option.splits sum.splits dest: files_emit_span)

lemma files_console_info [simp]: "files (console_info E s a ev w) = files w"
  by (simp add: console_info_def)

lemma io_calls_console_log [simp]: "io_calls (console_log n m w) = io_calls w"
  by (simp add: console_log_def)

lemma io_calls_export_otel [simp]: "io_calls (export_otel E lg s a ev w) = io_calls w"
  by (auto simp: export_otel_def emit_span_def Let_def split: option.splits sum.splits)

lemma io_calls_console_info [simp]: "io_calls (console_info E s a ev w) = io_calls w"
  by (simp add: console_info_def)

lemma io_calls_build_log_entry:
  "build_log_entry E lg s a ev l t sp w = (entry, lg1, w4) \<Longrightarrow> io_calls w4 = io_calls w"
  by (auto simp: build_log_entry_def Let_def resolve_trace_id_def resolve_span_id_def
        fresh_uuid_def utc_now_def split: prod.splits option.splits if_splits)

lemma resolve_trace_id_config:
  "resolve_trace_id E lg t w = (tid, lg1, w1) \<Longrightarrow>
     files w1 = files w \<and> console w1 = console w \<and> spans w1 = spans w \<and> clock w1 = clock w \<and>
     (\<exists>c. lg1 = lg\<lparr>current_trace_id := c\<rparr>)"
  apply (auto simp: resolve_trace_id_def Let_def fresh_uuid_def split: option.splits if_splits prod.splits)
  apply (metis alogger.surjective alogger.update_convs(7))
  done

lemma build_log_entry_shape:
  "build_log_entry E lg s a ev l t sp w = (entry, lg1, w4) \<Longrightarrow>
     files w4 = files w \<and> console w4 = console w \<and> spans w4 = spans w \<and>
     (\<exists>c. lg1 = lg\<lparr>current_trace_id := c\<rparr>) \<and>
     (\<exists>eid ts tid sid. entry = log_entry_dict eid ts a s l tid sid ev)"
  apply (simp add: build_log_entry_def Let_def split: prod.splits)
  apply (auto dest!: resolve_trace_id_config simp: resolve_span_id_def fresh_uuid_def utc_now_def split: option.splits)
  done

lemma record_envelope_eq:
  "build_log_entry E lg s a ev l t sp w = (entry, lg1, w4) \<Longrightarrow>
   record_envelope E lg s a ev l t sp w =
     (lg1, console_info E s a ev (export_otel E lg1 s a ev
        (case sink_file lg1 s of None \<Rightarrow> w4 | Some p \<Rightarrow> write_to_file E p entry w4)))"
  by (simp add: record_envelope_def)

lemma sink_file_trace [simp]: "sink_file (lg\<lparr>current_trace_id := c\<rparr>) s = sink_file lg s"
  by (simp add: sink_file_def)

lemma write_to_file_ok:
  "open_append_error E p = None \<Longrightarrow> write_error E p line = None \<Longrightarrow> close_error E p = None \<Longrightarrow>
   json_dumps E False entry = Inr line \<Longrightarrow>
   write_to_file E p entry w =
     w\<lparr>io_calls := io_calls w @ [FileOpen p, FileWrite p line, FileClose p],
       files := (files w)(p \<mapsto> file_lines w p @ [line])\<rparr>"
  by (simp add: write_to_file_def append_json_line_def Let_def)

lemma append_json_line_open_fails:
  "open_append_error E p = Some e \<Longrightarrow>
   append_json_line E p entry w = Inl (e, w\<lparr>io_calls := io_calls w @ [FileOpen p]\<rparr>)"
  by (simp add: append_json_line_def Let_def)

lemma append_json_line_write_fails:
  "open_append_error E p = None \<Longrightarrow> json_dumps E False entry = Inr line \<Longrightarrow>
   write_error E p line = Some e \<Longrightarrow> close_error E p = None \<Longrightarrow>
   append_json_line E p entry w =
     Inl (e, w\<lparr>io_calls := io_calls w @ [FileOpen p, FileWrite p line, FileClose p],
               files := (files w)(p \<mapsto> file_lines w p @ torn_write E p line)\<rparr>)"
  by (simp add: append_json_line_def Let_def)

lemma append_json_line_close_fails:
  "open_append_error E p = None \<Longrightarrow> close_error E p = Some e \<Longrightarrow>
   \<exists>w5. append_json_line E p entry w = Inl (e, w5)"
  by (simp add: append_json_line_def Let_def split: sum.splits option.splits)

lemma append_json_line_raises_iff:
  "(\<exists>e w5. append_json_line E p entry w = Inl (e, w5)) \<longleftrightarrow>
     open_append_error E p \<noteq> None \<or> close_error E p \<noteq> None \<or>
     (case json_dumps E False entry of Inl e \<Rightarrow> True | Inr line \<Rightarrow> write_error E p line \<noteq> None)"
  by (auto simp: append_json_line_def Let_def split: sum.splits option.splits)

lemma append_json_line_raised:
  assumes "append_json_line E p entry w = Inl (e, w5)"
  shows "io_calls w5 = io_calls w @ append_calls E p entry"
    and "console w5 = console w" and "spans w5 = spans w"
    and "uuid_count w5 = uuid_count w" and "clock w5 = clock w"
    and "\<And>q. q \<noteq> p \<Longrightarrow> files w5 q = files w q"
    and "open_append_error E p \<noteq> None \<Longrightarrow> files w5 = files w"
  using assms
  by (auto simp: append_json_line_def append_calls_def Let_def split: sum.splits option.splits)

lemma write_to_file_raised:
  "append_json_line E p entry w = Inl (e, w5) \<Longrightarrow>
   write_to_file E p entry w =
     console_log LOG_ERROR (''Failed to write to '' @ p @ '': '' @ err_msg e) w5"
  by (simp add: write_to_file_def)

lemma io_calls_write_to_file [simp]:
  "io_calls (write_to_file E p entry w) = io_calls w @ append_calls E p entry"
  by (auto simp: write_to_file_def append_json_line_def append_calls_def console_log_def Let_def
        split: sum.splits option.splits)

lemma append_calls_cases:
  "append_calls E p entry = [FileOpen p] \<or> append_calls E p entry = [FileOpen p, FileClose p] \<or>
   (\<exists>line. json_dumps E False entry = Inr line \<and>
      append_calls E p entry = [FileOpen p, FileWrite p line, FileClose p])"
  by (auto simp: append_calls_def split: sum.splits option.splits)

lemma record_envelope_files:
  assumes "build_log_entry E lg s a ev l t sp w = (entry, lg1, w4)"
    and "record_envelope E lg s a ev l t sp w = (lg', w')"
  shows "lg' = lg1"
    and "files w' = files (case sink_file lg s of None \<Rightarrow> w | Some p \<Rightarrow> write_to_file E p entry w)"
proof -
  from assms show "lg' = lg1" by (simp add: record_envelope_eq)
  from assms(1) have f: "files w4 = files w" and c: "\<exists>c. lg1 = lg\<lparr>current_trace_id := c\<rparr>"
    by (auto dest: build_log_entry_shape)
  then have sf: "sink_file lg1 s = sink_file lg s" by auto
  have wf: "\<And>p. files (write_to_file E p entry w4) = files (write_to_file E p entry w)"
    using f by (auto simp: write_to_file_def append_json_line_def file_lines_def Let_def
                  split: option.splits sum.splits)
  from assms have "files w' = files (case sink_file lg1 s of None \<Rightarrow> w4 | Some p \<Rightarrow> write_to_file E p entry w4)"
    by (auto simp: record_envelope_eq)
  then show "files w' = files (case sink_file lg s of None \<Rightarrow> w | Some p \<Rightarrow> write_to_file E p entry w)"
    using sf f wf by (simp split: option.splits)
qed

text \<open>
  Every \<open>record\<close> call makes the calls of one append on the file of its surface, whether
  the append succeeds or raises, and touches no file when the surface has none.
\<close>

lemma record_envelope_io_calls:
  assumes "build_log_entry E lg s a ev l t sp w = (entry, lg1, w4)"
    and "record_envelope E lg s a ev l t sp w = (lg', w')"
  shows "io_calls w' =
           io_calls w @ (case sink_file lg s of None \<Rightarrow> [] | Some p \<Rightarrow> append_calls E p entry)"
proof -
  have sf: "sink_file lg1 s = sink_file lg s"
    using build_log_entry_shape [OF assms(1)] by auto
  show ?thesis
    using assms(2) sf io_calls_build_log_entry [OF assms(1)]
    by (auto simp: record_envelope_eq [OF assms(1)] split: option.splits)
qed

lemma parse_lines_append:
  "parse_lines E ls acc = (None, logs) \<Longrightarrow> parse_lines E (ls @ ms) acc = parse_lines E ms logs"
  by (induction ls arbitrary: acc) (auto simp: Let_def split: if_splits sum.splits)

lemma parse_lines_snoc:
  assumes "parse_lines E ls [] = (None, old)" and "strip line \<noteq> []"
    and "json_loads E (strip line) = Inr entry"
  shows "parse_lines E (ls @ [line]) [] = (None, old @ [entry])"
  using assms by (simp add: parse_lines_append Let_def)

lemma read_file_ok:
  assumes "files w p = Some ls" and "open_read_error E p = None"
    and "parse_lines E ls [] = (None, logs)"
  shows "read_file E p w = (logs, w)"
  using assms by (simp add: read_file_def)

lemma build_log_entry_fields:
  assumes "build_log_entry E lg s a ev l t sp w = (entry, lg1, w4)"
  shows "entry_field entry ''surface'' = VStr s" and "entry_field entry ''agent'' = VStr a"
    and "entry_field entry ''level'' = VStr l" and "entry_field entry ''event'' = VDict ev"
    and "event_field entry k = dict_get ev k"
  using build_log_entry_shape [OF assms]
  by (auto simp: log_entry_dict_def entry_field_def event_field_def dict_get_def dict_get_default_def)

lemma build_log_entry_files:
  assumes "build_log_entry E lg s a ev l t sp w = (entry, lg1, w4)"
  shows "operational_file lg1 = operational_file lg" and "cognitive_file lg1 = cognitive_file lg"
    and "contextual_file lg1 = contextual_file lg" and "enable_otel lg1 = enable_otel lg"
    and "otel lg1 = otel lg"
  using build_log_entry_shape [OF assms] by auto

lemma console_export_otel_off: "\<not> enable_otel lg \<Longrightarrow> export_otel E lg s a ev w = w"
  by (simp add: export_otel_def)

lemma build_log_entry_trace:
  assumes "build_log_entry E lg s a ev l tid sp w = (entry, lg1, w4)"
    and "resolve_trace_id E lg tid w = (t1, lgx, w1)"
  shows "entry_field entry ''trace_id'' = VStr t1" and "lg1 = lgx"
    and "uuid_count w1 < uuid_count w4"
  using assms
  by (auto simp: build_log_entry_def Let_def resolve_span_id_def fresh_uuid_def utc_now_def
        log_entry_dict_def entry_field_def dict_get_def dict_get_default_def
      split: prod.splits option.splits)

lemma uuid_count_resolve: "resolve_trace_id E lg tid w = (t1, lgx, w1) \<Longrightarrow> uuid_count w \<le> uuid_count w1"
  by (auto simp: resolve_trace_id_def Let_def fresh_uuid_def split: option.splits if_splits prod.splits)

lemma uuid_count_console_log [simp]: "uuid_count (console_log n m w) = uuid_count w"
  by (simp add: console_log_def)

lemma uuid_count_write_to_file [simp]: "uuid_count (write_to_file E p entry w) = uuid_count w"
  by (auto simp: write_to_file_def append_json_line_def Let_def split: option.splits sum.splits)

lemma uuid_count_export_otel [simp]: "uuid_count (export_otel E lg s a ev w) = uuid_count w"
  by (auto simp: export_otel_def emit_span_def Let_def split: option.splits sum.splits)

lemma uuid_count_console_info [simp]: "uuid_count (console_info E s a ev w) = uuid_count w"
  by (simp add: console_info_def)

lemma record_envelope_uuid_count:
  assumes "build_log_entry E lg s a ev l tid sp w = (entry, lg1, w4)"
    and "record_envelope E lg s a ev l tid sp w = (lg', w')"
  shows "uuid_count w' = uuid_count w4"
  using assms by (auto simp: record_envelope_eq split: option.splits)

lemma console_write_to_file_raised:
  "append_json_line E p entry w = Inl (e, w5) \<Longrightarrow>
   console (write_to_file E p entry w) = console w @ [(LOG_ERROR, ''Failed to write to '' @ p @ '': '' @ err_msg e)]"
  by (simp add: write_to_file_raised append_json_line_raised(2))

lemma console_export_otel:
  "console (export_otel E lg s a ev w) = console w \<or>
   (\<exists>m. console (export_otel E lg s a ev w) = console w @ [(LOG_WARNING, m)])"
  by (auto simp: export_otel_def emit_span_def Let_def split: option.splits sum.splits)

lemma console_console_info:
  "console (console_info E s a ev w) = console w \<or>
   (\<exists>m. console (console_info E s a ev w) = console w @ [(LOG_INFO, m)])"
  by (auto simp: console_info_def)

lemmas demo_eval = demo_lib_def demo_logger_def empty_world_def ALogger_init_def path_join_def
  logging_level_def upper_char_def LOG_INFO_def LOG_ERROR_def LOG_WARNING_def LOG_DEBUG_def LOG_CRITICAL_def
  OTelExporter_init_def toy_loads_def

lemmas record_eval = record_envelope_def build_log_entry_def resolve_trace_id_def resolve_span_id_def
  fresh_uuid_def utc_now_def time_now_def log_entry_dict_def sink_file_def write_to_file_def append_json_line_def
  file_lines_def export_otel_def console_info_def console_log_def dict_get_def dict_get_default_def

lemmas strip_eval = strip_def lstrip_def rstrip_def is_space_def


subsection \<open>Unknown surfaces\<close>

text \<open>
  Claim C10. A \<open>record\<close> call whose surface is none of \<open>operational\<close>,
  \<open>cognitive\<close> and \<open>contextual\<close> is neither rejected nor dropped: when the operational
  file can be appended to (it opens, takes the line and closes), the envelope, keeping its
  own surface name, is appended to the operational file, and a later read of the
  operational surface returns it after the entries that were there before; without the
  tracing bridge nothing is said on the console.
\<close>

theorem unknown_surface_goes_to_operational:
  assumes unknown: "surface \<noteq> ''operational''" "surface \<noteq> ''cognitive''" "surface \<noteq> ''contextual''"
    and built: "build_log_entry E lg surface agent event lvl tid sid w = (entry, lg1, w4)"
    and recorded: "record_envelope E lg surface agent event lvl tid sid w = (lg', w')"
    and writable: "open_append_error E (operational_file lg) = None"
      "write_error E (operational_file lg) line = None"
      "close_error E (operational_file lg) = None"
    and dumped: "json_dumps E False entry = Inr line"
    and readable: "open_read_error E (operational_file lg) = None"
    and before: "parse_lines E (file_lines w (operational_file lg)) [] = (None, old)"
    and loads: "strip line \<noteq> []" "json_loads E (strip line) = Inr entry"
  shows "entry_field entry ''surface'' = VStr surface
       \<and> files w' = (files w)(operational_file lg \<mapsto> file_lines w (operational_file lg) @ [line])
       \<and> fst (get_logs E lg' (Some ''operational'') w') = old @ [entry]
       \<and> (\<not> enable_otel lg \<longrightarrow> console w' = console w)"
proof -
  have sf: "sink_file lg surface = Some (operational_file lg)"
    using unknown by (simp add: sink_file_def)
  have lg': "lg' = lg1" using built recorded by (rule record_envelope_files(1))
  have f: "files w' = (files w)(operational_file lg \<mapsto> file_lines w (operational_file lg) @ [line])"
    using record_envelope_files(2) [OF built recorded] sf writable dumped
    by (simp add: write_to_file_ok)
  have op: "operational_file lg' = operational_file lg"
    using build_log_entry_files(1) [OF built] lg' by simp
  have "parse_lines E (file_lines w (operational_file lg) @ [line]) [] = (None, old @ [entry])"
    using before loads by (rule parse_lines_snoc)
  then have "read_file E (operational_file lg) w' = (old @ [entry], w')"
    using f readable by (intro read_file_ok) simp_all
  then have g: "fst (get_logs E lg' (Some ''operational'') w') = old @ [entry]"
    using op by (simp add: get_logs_def)
  have c: "\<not> enable_otel lg \<longrightarrow> console w' = console w"
  proof
    assume off: "\<not> enable_otel lg"
    then have "\<not> enable_otel lg1" using build_log_entry_files(4) [OF built] by simp
    moreover have "console w4 = console w" using build_log_entry_shape [OF built] by simp
    moreover have "sink_file lg1 surface = Some (operational_file lg)"
      using sf build_log_entry_shape [OF built] by auto
    ultimately show "console w' = console w"
      using recorded unknown writable dumped
      by (auto simp: record_envelope_eq [OF built] console_export_otel_off console_info_def write_to_file_ok)
  qed
  from build_log_entry_fields(1) [OF built] f g c show ?thesis by blast
qed

theorem unknown_surface_goes_to_operational_witness:
  "fst (build_log_entry (demo_lib [audit_entry]) demo_logger ''audit'' ''agent'' [(''k'', VInt 1)]
          ''INFO'' None None empty_world) = audit_entry \<and>
   json_dumps (demo_lib [audit_entry]) False audit_entry = Inr (toy_json audit_entry) \<and>
   json_loads (demo_lib [audit_entry]) (strip (toy_json audit_entry)) = Inr audit_entry \<and>
   entry_field audit_entry ''surface'' = VStr ''audit'' \<and>
   fst (get_logs (demo_lib [audit_entry])
          (fst (record_envelope (demo_lib [audit_entry]) demo_logger ''audit'' ''agent''
                  [(''k'', VInt 1)] ''INFO'' None None empty_world))
          (Some ''operational'')
          (snd (record_envelope (demo_lib [audit_entry]) demo_logger ''audit'' ''agent''
                  [(''k'', VInt 1)] ''INFO'' None None empty_world))) = [audit_entry]"
proof -
  let ?E = "demo_lib [audit_entry]"
  let ?b = "build_log_entry ?E demo_logger ''audit'' ''agent'' [(''k'', VInt 1)] ''INFO'' None None empty_world"
  let ?r = "record_envelope ?E demo_logger ''audit'' ''agent'' [(''k'', VInt 1)] ''INFO'' None None empty_world"
  have e: "fst ?b = audit_entry"
    by (simp add: demo_eval record_eval Let_def audit_entry_def)
  have built: "?b = (audit_entry, fst (snd ?b), snd (snd ?b))"
    using e by (metis prod.collapse)
  have recorded: "?r = (fst ?r, snd ?r)" by simp
  have d: "json_dumps ?E False audit_entry = Inr (toy_json audit_entry)"
    by (simp add: demo_lib_def audit_entry_def)
  have l: "strip (toy_json audit_entry) \<noteq> []"
    by (simp add: audit_entry_def strip_eval)
  have j: "json_loads ?E (strip (toy_json audit_entry)) = Inr audit_entry"
    by (simp add: demo_lib_def toy_loads_def audit_entry_def strip_eval)
  have u: "''audit'' \<noteq> ''operational''" "''audit'' \<noteq> ''cognitive''" "''audit'' \<noteq> ''contextual''"
    by simp_all
  have wr: "open_append_error ?E (operational_file demo_logger) = None"
      "write_error ?E (operational_file demo_logger) (toy_json audit_entry) = None"
      "close_error ?E (operational_file demo_logger) = None"
    and rd: "open_read_error ?E (operational_file demo_logger) = None"
    by (simp_all add: demo_lib_def)
  have b: "parse_lines ?E (file_lines empty_world (operational_file demo_logger)) [] = (None, [])"
    by (simp add: file_lines_def empty_world_def)
  from unknown_surface_goes_to_operational [OF u built recorded wr d rd b l j] e d j
  show ?thesis by simp
qed


subsection \<open>The trace context\<close>

text \<open>
  Claim C6. A logger starts, and restarts after a reset, with no retained trace identifier.
  A \<open>record\<close> call without \<open>trace_id\<close> on such a logger draws a fresh identifier,
  puts it into the envelope and retains it; a call without \<open>trace_id\<close> on a logger that
  retains an identifier reuses it and keeps it; a call with an explicit \<open>trace_id\<close> uses
  that one for its envelope and leaves the retained one as it was; and the identifier
  allocated by the first call after a reset differs from the one retained before, which
  was drawn earlier. The identifiers of \<open>uuid4\<close> are taken to be non-empty and pairwise
  distinct.
\<close>

theorem trace_id_retention:
  assumes nonempty: "\<forall>n. uuid4 E n \<noteq> []" and distinct_ids: "inj (uuid4 E)"
    and built: "build_log_entry E lg s a ev l tid sp w = (entry, lg1, w4)"
    and recorded: "record_envelope E lg s a ev l tid sp w = (lg', w')"
    and after_reset: "build_log_entry E (reset_trace lg') s2 a2 ev2 l2 None sp2 w' = (entry2, lg2, w2)"
  shows "current_trace_id (ALogger_init E dir lv eo sn ep sc) = None
       \<and> current_trace_id (reset_trace lg) = None
       \<and> (tid = None \<and> current_trace_id lg = None \<longrightarrow>
            entry_field entry ''trace_id'' = VStr (uuid4 E (uuid_count w)) \<and>
            current_trace_id lg' = Some (uuid4 E (uuid_count w)))
       \<and> (\<forall>n. tid = None \<and> current_trace_id lg = Some (uuid4 E n) \<longrightarrow>
            entry_field entry ''trace_id'' = VStr (uuid4 E n) \<and>
            current_trace_id lg' = Some (uuid4 E n))
       \<and> (\<forall>t. tid = Some t \<longrightarrow>
            entry_field entry ''trace_id'' = VStr t \<and> current_trace_id lg' = current_trace_id lg)
       \<and> uuid_count w < uuid_count w'
       \<and> (\<forall>n. n < uuid_count w' \<and> current_trace_id lg' = Some (uuid4 E n) \<longrightarrow>
            entry_field entry2 ''trace_id'' \<noteq> VStr (uuid4 E n) \<and>
            current_trace_id lg2 \<noteq> current_trace_id lg')"
proof -
  obtain t1 lgx w1 where r: "resolve_trace_id E lg tid w = (t1, lgx, w1)"
    by (metis prod_cases3)
  note tr = build_log_entry_trace [OF built r]
  have lg': "lg' = lg1" using built recorded by (rule record_envelope_files(1))
  have cnt: "uuid_count w < uuid_count w'"
    using uuid_count_resolve [OF r] tr(3) record_envelope_uuid_count [OF built recorded] by simp
  have a: "tid = None \<and> current_trace_id lg = None \<longrightarrow>
            entry_field entry ''trace_id'' = VStr (uuid4 E (uuid_count w)) \<and>
            current_trace_id lg' = Some (uuid4 E (uuid_count w))"
    using r tr lg' by (auto simp: resolve_trace_id_def Let_def fresh_uuid_def)
  have b: "\<forall>n. tid = None \<and> current_trace_id lg = Some (uuid4 E n) \<longrightarrow>
            entry_field entry ''trace_id'' = VStr (uuid4 E n) \<and>
            current_trace_id lg' = Some (uuid4 E n)"
    using r tr lg' nonempty by (auto simp: resolve_trace_id_def Let_def fresh_uuid_def)
  have c: "\<forall>t. tid = Some t \<longrightarrow>
            entry_field entry ''trace_id'' = VStr t \<and> current_trace_id lg' = current_trace_id lg"
    using r tr lg' by (auto simp: resolve_trace_id_def)
  have d: "\<forall>n. n < uuid_count w' \<and> current_trace_id lg' = Some (uuid4 E n) \<longrightarrow>
            entry_field entry2 ''trace_id'' \<noteq> VStr (uuid4 E n) \<and>
            current_trace_id lg2 \<noteq> current_trace_id lg'"
  proof (intro allI impI)
    fix n assume n: "n < uuid_count w' \<and> current_trace_id lg' = Some (uuid4 E n)"
    have r2: "resolve_trace_id E (reset_trace lg') None w'
                = (uuid4 E (uuid_count w'), (reset_trace lg')\<lparr>current_trace_id := Some (uuid4 E (uuid_count w'))\<rparr>,
                   w'\<lparr>uuid_count := Suc (uuid_count w')\<rparr>)"
      by (simp add: resolve_trace_id_def reset_trace_def fresh_uuid_def)
    note tr2 = build_log_entry_trace [OF after_reset r2]
    have ne: "uuid4 E (uuid_count w') \<noteq> uuid4 E n"
      using n distinct_ids by (auto dest: injD)
    show "entry_field entry2 ''trace_id'' \<noteq> VStr (uuid4 E n) \<and>
            current_trace_id lg2 \<noteq> current_trace_id lg'"
      using tr2 ne n by simp
  qed
  have i: "current_trace_id (ALogger_init E dir lv eo sn ep sc) = None"
    by (simp add: ALogger_init_def)
  have j: "current_trace_id (reset_trace lg) = None" by (simp add: reset_trace_def)
  from i j a b c cnt d show ?thesis by blast
qed

theorem trace_id_retention_witness:
  "(\<forall>n. uuid4 (demo_lib []) n \<noteq> []) \<and> inj (uuid4 (demo_lib [])) \<and>
   entry_field (fst (build_log_entry (demo_lib []) demo_logger ''operational'' ''agent'' []
                       ''INFO'' None None empty_world)) ''trace_id'' = VStr ''uuid-'' \<and>
   current_trace_id (fst (record_envelope (demo_lib []) demo_logger ''operational'' ''agent'' []
                       ''INFO'' None None empty_world)) = Some ''uuid-'' \<and>
   entry_field (fst (build_log_entry (demo_lib [])
       (reset_trace (fst (record_envelope (demo_lib []) demo_logger ''operational'' ''agent'' []
                       ''INFO'' None None empty_world)))
       ''cognitive'' ''agent'' [] ''INFO'' None None
       (snd (record_envelope (demo_lib []) demo_logger ''operational'' ''agent'' []
                       ''INFO'' None None empty_world)))) ''trace_id'' \<noteq> VStr ''uuid-''"
proof -
  let ?E = "demo_lib []"
  let ?b = "build_log_entry ?E demo_logger ''operational'' ''agent'' [] ''INFO'' None None empty_world"
  let ?r = "record_envelope ?E demo_logger ''operational'' ''agent'' [] ''INFO'' None None empty_world"
  let ?b2 = "build_log_entry ?E (reset_trace (fst ?r)) ''cognitive'' ''agent'' [] ''INFO'' None None (snd ?r)"
  have ne: "\<forall>n. uuid4 ?E n \<noteq> []" by (simp add: demo_lib_def)
  have inj: "inj (uuid4 ?E)"
    by (auto simp: demo_lib_def inj_def dest: arg_cong [where f = length])
  have built: "?b = (fst ?b, fst (snd ?b), snd (snd ?b))" by simp
  have recorded: "?r = (fst ?r, snd ?r)" by simp
  have reset: "?b2 = (fst ?b2, fst (snd ?b2), snd (snd ?b2))" by simp
  have fresh: "current_trace_id demo_logger = None"
    by (simp add: demo_logger_def ALogger_init_def)
  have c0: "uuid_count empty_world = 0" by (simp add: empty_world_def)
  have u0: "uuid4 ?E 0 = ''uuid-''" by (simp add: demo_lib_def)
  note t = trace_id_retention [OF ne inj built recorded reset]
  from t fresh c0 u0 have first: "entry_field (fst ?b) ''trace_id'' = VStr ''uuid-''"
    and kept: "current_trace_id (fst ?r) = Some ''uuid-''" and pos: "0 < uuid_count (snd ?r)"
    by auto
  from t kept pos u0 have "entry_field (fst ?b2) ''trace_id'' \<noteq> VStr ''uuid-''"
    by metis
  with ne inj first kept show ?thesis by blast
qed


subsection \<open>A file that cannot be written\<close>

text \<open>
  Claim C7, as stated (a failing append is logged at WARNING level), fails: the handler
  of \<open>_write_to_file\<close> calls \<open>console_logger.error\<close>, so the one console entry of the
  call below has level 40 (ERROR), not 30 (WARNING).
\<close>

theorem write_failure_level_counterexample:
  "console (snd (record_envelope failing_lib demo_logger ''cognitive'' ''agent'' [] ''INFO''
                   None None empty_world))
     = [(LOG_ERROR, ''Failed to write to logs/cognitive.jsonl: No space left on device'')]
   \<and> LOG_ERROR = 40 \<and> LOG_WARNING = 30"
  by (simp add: failing_lib_def demo_eval record_eval Let_def)


text \<open>
  Claim C7, amended. When the append to the file of the surface raises, at whichever of
  its stages (the open, the building of the line, the write, the flush and close on
  leaving the \<open>with\<close> block), the exception is caught inside \<open>_write_to_file\<close> and
  logged once on the console at ERROR level with its message. During the call \<open>open\<close>
  has been called exactly once, and after it at most one write and one close, so nothing
  is retried; the logger that comes back differs from the one given in the retained trace
  identifier only, so nothing of the envelope is kept for later; the file of the surface
  is left as the failed append left it and no other file changes (none at all when it
  was the open that raised); \<open>record\<close> goes on to its end, so the caller gets the logger
  back and no exception; whatever else the call puts on the console is the bridge's
  warning or the operational info line.
\<close>

theorem write_failure_is_contained:
  assumes sink: "sink_file lg surface = Some p"
    and built: "build_log_entry E lg surface agent event lvl tid sid w = (entry, lg1, w4)"
    and raises: "append_json_line E p entry w4 = Inl (e, w5)"
    and recorded: "record_envelope E lg surface agent event lvl tid sid w = (lg', w')"
  shows "lg' = lg1 \<and> (\<exists>c. lg' = lg\<lparr>current_trace_id := c\<rparr>)
       \<and> (\<exists>calls. io_calls w' = io_calls w @ FileOpen p # calls
             \<and> (calls = [] \<or> calls = [FileClose p]
                 \<or> (\<exists>line. json_dumps E False entry = Inr line
                       \<and> calls = [FileWrite p line, FileClose p])))
       \<and> files w' = files w5
       \<and> (\<forall>q. q \<noteq> p \<longrightarrow> files w' q = files w q)
       \<and> (open_append_error E p \<noteq> None \<longrightarrow> files w' = files w)
       \<and> (\<exists>rest. console w' =
             console w @ (LOG_ERROR, ''Failed to write to '' @ p @ '': '' @ err_msg e) # rest
           \<and> (\<forall>x\<in>set rest. fst x = LOG_WARNING \<or> fst x = LOG_INFO))
       \<and> (\<not> enable_otel lg \<and> surface \<noteq> ''operational'' \<longrightarrow>
             console w' =
               console w @ [(LOG_ERROR, ''Failed to write to '' @ p @ '': '' @ err_msg e)])"
proof -
  have lg': "lg' = lg1" using built recorded by (rule record_envelope_files(1))
  have kept: "\<exists>c. lg' = lg\<lparr>current_trace_id := c\<rparr>"
    using lg' build_log_entry_shape [OF built] by simp
  have "io_calls w' = io_calls w @ append_calls E p entry"
    using record_envelope_io_calls [OF built recorded] sink by simp
  then have o: "\<exists>calls. io_calls w' = io_calls w @ FileOpen p # calls
             \<and> (calls = [] \<or> calls = [FileClose p]
                 \<or> (\<exists>line. json_dumps E False entry = Inr line
                       \<and> calls = [FileWrite p line, FileClose p]))"
    using append_calls_cases [of E p entry] by auto
  have sf: "sink_file lg1 surface = Some p"
    using sink build_log_entry_shape [OF built] by auto
  have c4: "console w4 = console w" and f4: "files w4 = files w"
    using build_log_entry_shape [OF built] by simp_all
  let ?m = "(LOG_ERROR, ''Failed to write to '' @ p @ '': '' @ err_msg e)"
  let ?w5 = "write_to_file E p entry w4"
  let ?w6 = "export_otel E lg1 surface agent event ?w5"
  have w': "w' = console_info E surface agent event ?w6"
    using recorded sf by (auto simp: record_envelope_eq [OF built])
  have f: "files w' = files w5"
    using w' by (simp add: write_to_file_raised [OF raises])
  have fq: "\<forall>q. q \<noteq> p \<longrightarrow> files w' q = files w q"
    using f f4 append_json_line_raised(6) [OF raises] by simp
  have fo: "open_append_error E p \<noteq> None \<longrightarrow> files w' = files w"
    using f f4 append_json_line_raised(7) [OF raises] by simp
  have c5: "console ?w5 = console w @ [?m]"
    using c4 by (simp add: console_write_to_file_raised [OF raises])
  have c: "\<exists>rest. console w' = console w @ ?m # rest
           \<and> (\<forall>x\<in>set rest. fst x = LOG_WARNING \<or> fst x = LOG_INFO)"
    using console_export_otel [of E lg1 surface agent event ?w5]
      console_console_info [of E surface agent event ?w6] c5 w'
    by auto
  have q: "\<not> enable_otel lg \<and> surface \<noteq> ''operational'' \<longrightarrow> console w' = console w @ [?m]"
  proof
    assume h: "\<not> enable_otel lg \<and> surface \<noteq> ''operational''"
    then have "\<not> enable_otel lg1" using build_log_entry_files(4) [OF built] by simp
    then have "?w6 = ?w5" by (simp add: console_export_otel_off)
    with h w' c5 show "console w' = console w @ [?m]" by (simp add: console_info_def)
  qed
  from lg' kept o f fq fo c q show ?thesis by (intro conjI)
qed

theorem write_failure_is_contained_witness:
  "sink_file demo_logger ''cognitive'' = Some ''logs/cognitive.jsonl'' \<and>
   map_sum fst id
     (append_json_line full_disk_lib ''logs/cognitive.jsonl''
        (fst (build_log_entry full_disk_lib demo_logger ''cognitive'' ''agent'' [] ''INFO''
                None None empty_world))
        (snd (snd (build_log_entry full_disk_lib demo_logger ''cognitive'' ''agent'' [] ''INFO''
                     None None empty_world))))
     = Inl (LibError ''OSError'' ''No space left on device'') \<and>
   count_list
     (io_calls (snd (record_envelope full_disk_lib demo_logger ''cognitive'' ''agent'' []
                       ''INFO'' None None empty_world)))
     (FileOpen ''logs/cognitive.jsonl'') = 1 \<and>
   files (snd (record_envelope full_disk_lib demo_logger ''cognitive'' ''agent'' [] ''INFO''
                 None None empty_world)) ''logs/operational.jsonl'' = None \<and>
   console (snd (record_envelope full_disk_lib demo_logger ''cognitive'' ''agent'' [] ''INFO''
                   None None empty_world))
     = [(LOG_ERROR, ''Failed to write to logs/cognitive.jsonl: No space left on device'')]"
proof -
  let ?E = "full_disk_lib"
  let ?p = "''logs/cognitive.jsonl''"
  let ?e = "LibError ''OSError'' ''No space left on device''"
  let ?b = "build_log_entry ?E demo_logger ''cognitive'' ''agent'' [] ''INFO'' None None empty_world"
  let ?r = "record_envelope ?E demo_logger ''cognitive'' ''agent'' [] ''INFO'' None None empty_world"
  let ?a = "append_json_line ?E ?p (fst ?b) (snd (snd ?b))"
  have sink: "sink_file demo_logger ''cognitive'' = Some ?p"
    by (simp add: sink_file_def demo_eval)
  have built: "?b = (fst ?b, fst (snd ?b), snd (snd ?b))" by simp
  have recorded: "?r = (fst ?r, snd ?r)" by simp
  have off: "\<not> enable_otel demo_logger" by (simp add: demo_eval)
  have a: "map_sum fst id ?a = Inl ?e"
    by (simp add: full_disk_lib_def demo_eval record_eval Let_def)
  then obtain w5 where raises: "?a = Inl (?e, w5)"
    by (cases ?a) auto
  have o: "io_calls empty_world = []" and c: "console empty_world = []"
    and f: "files empty_world ''logs/operational.jsonl'' = None"
    by (simp_all add: empty_world_def)
  note t = write_failure_is_contained [OF sink built raises recorded]
  have o': "count_list (io_calls (snd ?r)) (FileOpen ?p) = 1"
    using t [THEN conjunct2, THEN conjunct2, THEN conjunct1] o by auto
  have f': "files (snd ?r) ''logs/operational.jsonl'' = None"
    using t [THEN conjunct2, THEN conjunct2, THEN conjunct2, THEN conjunct2, THEN conjunct1,
             rule_format, of "''logs/operational.jsonl''"] f
    by simp
  have c': "console (snd ?r)
              = [(LOG_ERROR, ''Failed to write to logs/cognitive.jsonl: No space left on device'')]"
    using t [THEN conjunct2, THEN conjunct2, THEN conjunct2, THEN conjunct2, THEN conjunct2,
             THEN conjunct2, THEN conjunct2] off c
    by simp
  from sink a o' f' c' show ?thesis by (intro conjI)
qed

text \<open>
  The same when it is the close that raises, with half of the line left in the file: one
  open, one write and one close, one ERROR entry, and the caller of \<open>record\<close> gets the
  logger back.
\<close>

lemma close_failure_is_contained:
  "count_list
     (io_calls (snd (record_envelope failing_close_lib demo_logger ''cognitive'' ''agent'' []
                       ''INFO'' None None empty_world)))
     (FileOpen ''logs/cognitive.jsonl'') = 1 \<and>
   length (io_calls (snd (record_envelope failing_close_lib demo_logger ''cognitive'' ''agent'' []
                            ''INFO'' None None empty_world))) = 3 \<and>
   map_option length
     (files (snd (record_envelope failing_close_lib demo_logger ''cognitive'' ''agent'' []
                    ''INFO'' None None empty_world)) ''logs/cognitive.jsonl'') = Some 1 \<and>
   console (snd (record_envelope failing_close_lib demo_logger ''cognitive'' ''agent'' []
                   ''INFO'' None None empty_world))
     = [(LOG_ERROR, ''Failed to write to logs/cognitive.jsonl: Input/output error'')] \<and>
   current_trace_id (fst (record_envelope failing_close_lib demo_logger ''cognitive'' ''agent'' []
                            ''INFO'' None None empty_world)) = Some ''uuid-''"
  by (simp add: failing_close_lib_def demo_eval record_eval Let_def)

subsection \<open>Reading back what a session wrote\<close>

lemma same_sinks_refl [simp]: "same_sinks lg lg"
  by (simp add: same_sinks_def)

lemma same_sinks_trans: "same_sinks a b \<Longrightarrow> same_sinks b c \<Longrightarrow> same_sinks a c"
  by (simp add: same_sinks_def)

lemma same_sinks_sink_file: "same_sinks lg lg' \<Longrightarrow> sink_file lg' s = sink_file lg s"
  by (simp add: same_sinks_def sink_file_def)

lemma same_sinks_sink_of_entry: "same_sinks lg lg' \<Longrightarrow> sink_of_entry lg' = sink_of_entry lg"
  by (auto simp: sink_of_entry_def fun_eq_iff same_sinks_sink_file split: pyval.splits)

lemma same_sinks_contextual_sink: "same_sinks lg lg' \<Longrightarrow> contextual_sink lg' = contextual_sink lg"
  by (simp add: same_sinks_def contextual_sink_def)

lemma build_log_entry_same_sinks:
  "build_log_entry E lg s a ev l t sp w = (entry, lg1, w4) \<Longrightarrow> same_sinks lg lg1"
  by (auto simp: same_sinks_def dest: build_log_entry_files)

lemma file_lines_files: "files w' = files w \<Longrightarrow> file_lines w' p = file_lines w p"
  by (simp add: file_lines_def)

lemma record_envelope_lines:
  assumes built: "build_log_entry E lg s a ev l t sp w = (entry, lg1, w4)"
    and recorded: "record_envelope E lg s a ev l t sp w = (lg', w')"
    and writable: "\<forall>p. open_append_error E p = None" "\<forall>p t. write_error E p t = None"
      "\<forall>p. close_error E p = None"
    and dumped: "json_dumps E False entry = Inr line"
  shows "file_lines w' q = (if sink_file lg s = Some q then file_lines w q @ [line] else file_lines w q)"
proof (cases "sink_file lg s")
  case None
  with record_envelope_files(2) [OF built recorded] show ?thesis
    by (simp add: file_lines_def)
next
  case (Some p)
  with record_envelope_files(2) [OF built recorded] writable dumped
  have "files w' = (files w)(p \<mapsto> file_lines w p @ [line])"
    by (simp add: write_to_file_ok)
  with Some show ?thesis by (simp add: file_lines_def)
qed

lemma roundtripD:
  "roundtrip E entry \<Longrightarrow>
   \<exists>line. json_dumps E False entry = Inr line \<and> strip line \<noteq> [] \<and> json_loads E (strip line) = Inr entry"
  by (auto simp: roundtrip_def split: sum.splits)

lemma record_envelope_parse:
  assumes built: "build_log_entry E lg s a ev l t sp w = (entry, lg1, w4)"
    and recorded: "record_envelope E lg s a ev l t sp w = (lg', w')"
    and writable: "\<forall>p. open_append_error E p = None" "\<forall>p t. write_error E p t = None"
      "\<forall>p. close_error E p = None"
    and rt: "roundtrip E entry"
    and before: "parse_lines E (file_lines w q) [] = (None, old)"
  shows "parse_lines E (file_lines w' q) [] =
           (None, old @ filter (\<lambda>e. sink_of_entry lg e = Some q) [entry])"
proof -
  from roundtripD [OF rt] obtain line where d: "json_dumps E False entry = Inr line"
    and l: "strip line \<noteq> []" "json_loads E (strip line) = Inr entry" by blast
  have s: "sink_of_entry lg entry = sink_file lg s"
    using build_log_entry_fields(1) [OF built] by (simp add: sink_of_entry_def)
  show ?thesis
    using record_envelope_lines [OF built recorded writable d, of q] s before
      parse_lines_snoc [OF before l]
    by simp
qed

lemma run_calls_parse:
  assumes writable: "\<forall>p. open_append_error E p = None" "\<forall>p t. write_error E p t = None"
      "\<forall>p. close_error E p = None"
  shows "run_calls E lg calls w = (entries, lg', w') \<Longrightarrow> list_all (roundtrip E) entries \<Longrightarrow>
     parse_lines E (file_lines w q) [] = (None, old) \<Longrightarrow>
     parse_lines E (file_lines w' q) [] =
       (None, old @ filter (\<lambda>e. sink_of_entry lg e = Some q) entries) \<and> same_sinks lg lg'"
proof (induction calls arbitrary: lg w entries old lg' w')
  case Nil
  then show ?case by simp
next
  case (Cons c cs)
  obtain entry lg1 w4 where built:
    "build_log_entry E lg (rc_surface c) (rc_agent c) (rc_event c) (rc_level c)
       (rc_trace_id c) (rc_span_id c) w = (entry, lg1, w4)"
    by (metis prod_cases3)
  obtain lga wa where recorded:
    "record_envelope E lg (rc_surface c) (rc_agent c) (rc_event c) (rc_level c)
       (rc_trace_id c) (rc_span_id c) w = (lga, wa)"
    by (metis surj_pair)
  obtain rest lgb wb where tail: "run_calls E lga cs wa = (rest, lgb, wb)"
    by (metis prod_cases3)
  from Cons.prems(1) built recorded tail
  have e: "entries = entry # rest" and lg': "lg' = lgb" and w': "w' = wb"
    by simp_all
  from Cons.prems(2) e have rt: "roundtrip E entry" and rts: "list_all (roundtrip E) rest"
    by simp_all
  have lga: "lga = lg1" using built recorded by (rule record_envelope_files(1))
  have ss: "same_sinks lg lga" using build_log_entry_same_sinks [OF built] lga by simp
  note step = record_envelope_parse [OF built recorded writable rt Cons.prems(3)]
  note ih = Cons.IH [OF tail rts step]
  from ih ss show ?case
    unfolding e lg' w' same_sinks_sink_of_entry [OF ss]
    by (auto intro: same_sinks_trans)
qed

lemma run_calls_surface:
  "run_calls E lg calls w = (entries, lg', w') \<Longrightarrow>
   \<forall>e\<in>set entries. \<exists>s. entry_field e ''surface'' = VStr s"
proof (induction calls arbitrary: lg w entries lg' w')
  case Nil
  then show ?case by simp
next
  case (Cons c cs)
  obtain entry lg1 w4 where built:
    "build_log_entry E lg (rc_surface c) (rc_agent c) (rc_event c) (rc_level c)
       (rc_trace_id c) (rc_span_id c) w = (entry, lg1, w4)"
    by (metis prod_cases3)
  obtain lga wa where recorded:
    "record_envelope E lg (rc_surface c) (rc_agent c) (rc_event c) (rc_level c)
       (rc_trace_id c) (rc_span_id c) w = (lga, wa)"
    by (metis surj_pair)
  obtain rest lgb wb where tail: "run_calls E lga cs wa = (rest, lgb, wb)"
    by (metis prod_cases3)
  from Cons.prems(1) built recorded tail have e: "entries = entry # rest" by simp
  from Cons.IH [OF tail] build_log_entry_fields(1) [OF built] e show ?case by auto
qed

lemma read_file_parse:
  assumes "open_read_error E p = None" and "parse_lines E (file_lines w p) [] = (None, logs)"
  shows "read_file E p w = (logs, w)"
  using assms by (auto simp: read_file_def file_lines_def split: option.splits)

lemma mset_three_filters:
  "\<forall>x\<in>set xs. (P x \<and> \<not> Q x \<and> \<not> R x) \<or> (\<not> P x \<and> Q x \<and> \<not> R x) \<or> (\<not> P x \<and> \<not> Q x \<and> R x) \<Longrightarrow>
   mset (filter P xs @ filter Q xs @ filter R xs) = mset xs"
  by (induction xs) auto

lemmas session_eval = two_calls_def thought_entry_def start_entry_def demo_eval record_eval
  get_logs_def read_file_def contextual_sink_def strip_eval


text \<open>
  Claim C3, as stated (reading all returns the envelopes in the order in which they were
  written), fails: \<open>get_logs\<close> without a surface reads the operational file, then the
  cognitive file, then the contextual file. After a cognitive call followed by an
  operational call, the operational envelope comes back first.
\<close>

theorem get_logs_order_counterexample:
  "fst (run_calls (demo_lib [thought_entry, start_entry]) demo_logger two_calls empty_world)
     = [thought_entry, start_entry] \<and>
   fst (get_logs (demo_lib [thought_entry, start_entry])
          (fst (snd (run_calls (demo_lib [thought_entry, start_entry]) demo_logger two_calls
                       empty_world)))
          None
          (snd (snd (run_calls (demo_lib [thought_entry, start_entry]) demo_logger two_calls
                       empty_world))))
     = [start_entry, thought_entry]"
  by (simp add: session_eval Let_def)


text \<open>
  Claim C3, amended. In a single-writer session that starts with empty sinks, with the
  three sink files distinct, no failing open, write or close and every envelope surviving
  the JSON round trip: \<open>get_logs\<close> for one surface returns exactly the envelopes whose surface is
  written to that surface's file, in the order of their \<open>record\<close> calls (the operational
  file also takes the unknown surfaces; contextual envelopes are in a file only when one
  is configured); \<open>get_logs\<close> without a surface returns these three lists one after the
  other; every call builds one envelope; and when a contextual file is configured, what
  is read back is, as a multiset, exactly what was written: nothing lost, nothing
  duplicated.
\<close>

theorem get_logs_reads_back_by_sink:
  assumes session: "run_calls E lg calls w = (entries, lg', w')"
    and paths: "operational_file lg \<noteq> cognitive_file lg"
      "contextual_sink lg \<noteq> Some (operational_file lg)"
      "contextual_sink lg \<noteq> Some (cognitive_file lg)"
    and empty: "file_lines w (operational_file lg) = []" "file_lines w (cognitive_file lg) = []"
      "\<forall>p. contextual_sink lg = Some p \<longrightarrow> file_lines w p = []"
    and io_ok: "\<forall>p. open_append_error E p = None" "\<forall>p t. write_error E p t = None"
      "\<forall>p. close_error E p = None" "\<forall>p. open_read_error E p = None"
    and rt: "list_all (roundtrip E) entries"
  shows "fst (get_logs E lg' (Some ''operational'') w')
           = filter (\<lambda>e. sink_of_entry lg e = Some (operational_file lg)) entries
       \<and> fst (get_logs E lg' (Some ''cognitive'') w')
           = filter (\<lambda>e. sink_of_entry lg e = Some (cognitive_file lg)) entries
       \<and> fst (get_logs E lg' (Some ''contextual'') w')
           = filter (\<lambda>e. contextual_sink lg \<noteq> None \<and> sink_of_entry lg e = contextual_sink lg) entries
       \<and> fst (get_logs E lg' None w')
           = filter (\<lambda>e. sink_of_entry lg e = Some (operational_file lg)) entries
             @ filter (\<lambda>e. sink_of_entry lg e = Some (cognitive_file lg)) entries
             @ filter (\<lambda>e. contextual_sink lg \<noteq> None \<and> sink_of_entry lg e = contextual_sink lg) entries
       \<and> (contextual_sink lg \<noteq> None \<longrightarrow> mset (fst (get_logs E lg' None w')) = mset entries)
       \<and> length entries = length calls"
proof -
  let ?op = "filter (\<lambda>e. sink_of_entry lg e = Some (operational_file lg)) entries"
  let ?cog = "filter (\<lambda>e. sink_of_entry lg e = Some (cognitive_file lg)) entries"
  let ?ctx = "filter (\<lambda>e. contextual_sink lg \<noteq> None \<and> sink_of_entry lg e = contextual_sink lg) entries"
  have p0: "\<And>q. file_lines w q = [] \<Longrightarrow> parse_lines E (file_lines w q) [] = (None, [])"
    by simp
  note rp = run_calls_parse [OF io_ok(1-3) session rt]
  have ss: "same_sinks lg lg'" using rp [OF p0 [OF empty(1)]] by simp
  have opf: "operational_file lg' = operational_file lg" and cogf: "cognitive_file lg' = cognitive_file lg"
    using ss by (simp_all add: same_sinks_def)
  have ctxs: "contextual_sink lg' = contextual_sink lg"
    using ss by (rule same_sinks_contextual_sink)
  have r_op: "read_file E (operational_file lg) w' = (?op, w')"
    using rp [OF p0 [OF empty(1)]] io_ok(4) by (intro read_file_parse) simp_all
  have r_cog: "read_file E (cognitive_file lg) w' = (?cog, w')"
    using rp [OF p0 [OF empty(2)]] io_ok(4) by (intro read_file_parse) simp_all
  have r_ctx: "(case contextual_sink lg of Some p \<Rightarrow> read_file E p w' | None \<Rightarrow> ([], w')) = (?ctx, w')"
  proof (cases "contextual_sink lg")
    case None
    then show ?thesis by simp
  next
    case (Some p)
    then have "file_lines w p = []" using empty(3) by simp
    from rp [OF p0 [OF this]] io_ok(4) have "read_file E p w' =
        (filter (\<lambda>e. sink_of_entry lg e = Some p) entries, w')"
      by (intro read_file_parse) simp_all
    with Some show ?thesis by simp
  qed
  have a: "fst (get_logs E lg' (Some ''operational'') w') = ?op"
    by (simp add: get_logs_def opf r_op)
  have b: "fst (get_logs E lg' (Some ''cognitive'') w') = ?cog"
    by (simp add: get_logs_def cogf r_cog)
  have c: "fst (get_logs E lg' (Some ''contextual'') w') = ?ctx"
    by (simp add: get_logs_def ctxs r_ctx)
  have d: "fst (get_logs E lg' None w') = ?op @ ?cog @ ?ctx"
    by (simp add: get_logs_def opf cogf ctxs r_op r_cog r_ctx)
  have m: "contextual_sink lg \<noteq> None \<longrightarrow> mset (fst (get_logs E lg' None w')) = mset entries"
  proof
    assume cs: "contextual_sink lg \<noteq> None"
    have "\<forall>e\<in>set entries. sink_of_entry lg e = Some (operational_file lg) \<or>
            sink_of_entry lg e = Some (cognitive_file lg) \<or> sink_of_entry lg e = contextual_sink lg"
    proof
      fix e assume "e \<in> set entries"
      with run_calls_surface [OF session] obtain s where "entry_field e ''surface'' = VStr s"
        by blast
      then show "sink_of_entry lg e = Some (operational_file lg) \<or>
            sink_of_entry lg e = Some (cognitive_file lg) \<or> sink_of_entry lg e = contextual_sink lg"
        using cs by (auto simp: sink_of_entry_def sink_file_def contextual_sink_def split: option.splits)
    qed
    then have "mset (?op @ ?cog @ ?ctx) = mset entries"
      using paths cs by (intro mset_three_filters) auto
    with d show "mset (fst (get_logs E lg' None w')) = mset entries" by simp
  qed
  have len: "length entries = length calls"
    using session
  proof (induction calls arbitrary: lg w entries lg' w')
    case Nil
    then show ?case by simp
  next
    case (Cons c cs)
    then show ?case by (auto simp: Let_def split: prod.splits)
  qed
  from a b c d m len show ?thesis by (intro conjI)
qed

theorem get_logs_reads_back_by_sink_witness:
  "list_all (roundtrip (demo_lib [thought_entry, start_entry])) [thought_entry, start_entry] \<and>
   fst (run_calls (demo_lib [thought_entry, start_entry]) demo_logger two_calls empty_world)
     = [thought_entry, start_entry] \<and>
   fst (get_logs (demo_lib [thought_entry, start_entry])
          (fst (snd (run_calls (demo_lib [thought_entry, start_entry]) demo_logger two_calls
                       empty_world)))
          (Some ''operational'')
          (snd (snd (run_calls (demo_lib [thought_entry, start_entry]) demo_logger two_calls
                       empty_world))))
     = [start_entry] \<and>
   fst (get_logs (demo_lib [thought_entry, start_entry])
          (fst (snd (run_calls (demo_lib [thought_entry, start_entry]) demo_logger two_calls
                       empty_world)))
          (Some ''cognitive'')
          (snd (snd (run_calls (demo_lib [thought_entry, start_entry]) demo_logger two_calls
                       empty_world))))
     = [thought_entry] \<and>
   mset (fst (get_logs (demo_lib [thought_entry, start_entry])
          (fst (snd (run_calls (demo_lib [thought_entry, start_entry]) demo_logger two_calls
                       empty_world)))
          None
          (snd (snd (run_calls (demo_lib [thought_entry, start_entry]) demo_logger two_calls
                       empty_world)))))
     = mset [thought_entry, start_entry]"
proof -
  let ?E = "demo_lib [thought_entry, start_entry]"
  let ?r = "run_calls ?E demo_logger two_calls empty_world"
  have e: "fst ?r = [thought_entry, start_entry]"
    by (simp add: session_eval Let_def)
  have "?r = (fst ?r, fst (snd ?r), snd (snd ?r))" by simp
  then have session: "?r = ([thought_entry, start_entry], fst (snd ?r), snd (snd ?r))"
    unfolding e .
  have paths: "operational_file demo_logger \<noteq> cognitive_file demo_logger"
    "contextual_sink demo_logger \<noteq> Some (operational_file demo_logger)"
    "contextual_sink demo_logger \<noteq> Some (cognitive_file demo_logger)"
    by (simp_all add: demo_eval contextual_sink_def)
  have empty: "file_lines empty_world (operational_file demo_logger) = []"
    "file_lines empty_world (cognitive_file demo_logger) = []"
    "\<forall>p. contextual_sink demo_logger = Some p \<longrightarrow> file_lines empty_world p = []"
    by (simp_all add: file_lines_def empty_world_def)
  have io_ok: "\<forall>p. open_append_error ?E p = None" "\<forall>p t. write_error ?E p t = None"
    "\<forall>p. close_error ?E p = None" "\<forall>p. open_read_error ?E p = None"
    by (simp_all add: demo_lib_def)
  have rt: "list_all (roundtrip ?E) [thought_entry, start_entry]"
    by (simp add: roundtrip_def demo_lib_def toy_loads_def thought_entry_def start_entry_def strip_eval)
  have cs: "contextual_sink demo_logger \<noteq> None"
    by (simp add: demo_eval contextual_sink_def)
  have f1: "filter (\<lambda>e. sink_of_entry demo_logger e = Some (operational_file demo_logger))
              [thought_entry, start_entry] = [start_entry]"
    by (simp add: sink_of_entry_def entry_field_def dict_get_def dict_get_default_def sink_file_def
          thought_entry_def start_entry_def demo_eval)
  have f2: "filter (\<lambda>e. sink_of_entry demo_logger e = Some (cognitive_file demo_logger))
              [thought_entry, start_entry] = [thought_entry]"
    by (simp add: sink_of_entry_def entry_field_def dict_get_def dict_get_default_def sink_file_def
          thought_entry_def start_entry_def demo_eval)
  note t = get_logs_reads_back_by_sink [OF session paths empty io_ok rt]
  have a: "fst (get_logs ?E (fst (snd ?r)) (Some ''operational'') (snd (snd ?r))) = [start_entry]"
    using t [THEN conjunct1] f1 by simp
  have b: "fst (get_logs ?E (fst (snd ?r)) (Some ''cognitive'') (snd (snd ?r))) = [thought_entry]"
    using t [THEN conjunct2, THEN conjunct1] f2 by simp
  have m: "mset (fst (get_logs ?E (fst (snd ?r)) None (snd (snd ?r)))) = mset [thought_entry, start_entry]"
    using t [THEN conjunct2, THEN conjunct2, THEN conjunct2, THEN conjunct2, THEN conjunct1] cs
    by simp
  from rt e a b m show ?thesis by (intro conjI)
qed


section \<open>Properties of the span bridge\<close>

lemma span_name_set_event_attribute [simp]:
  "span_name (set_event_attribute E kv sp) = span_name sp"
  by (simp add: set_event_attribute_def set_attribute_def)

lemma span_name_fold [simp]:
  "span_name (fold (set_event_attribute E) ev sp) = span_name sp"
  by (induction ev arbitrary: sp) simp_all

lemma map_of_set_attribute:
  "map_of (attributes (set_attribute k v sp)) = (map_of (attributes sp))(k \<mapsto> v)"
  by (simp add: set_attribute_def update_conv')

lemma keys_set_attribute:
  "fst ` set (attributes (set_attribute k v sp)) = insert k (fst ` set (attributes sp))"
  by (simp add: set_attribute_def dom_update)

lemma map_of_fold_event:
  "distinct (map fst ev) \<Longrightarrow>
   map_of (attributes (fold (set_event_attribute E) ev sp)) k =
     (case map_of ev k of
        None \<Rightarrow> map_of (attributes sp) k
      | Some v \<Rightarrow> if v = VNone then map_of (attributes sp) k else Some (span_attribute E v))"
proof (induction ev arbitrary: sp)
  case Nil
  show ?case by simp
next
  case (Cons kv ev)
  obtain k' v' where kv: "kv = (k', v')" by (cases kv)
  from Cons.prems kv have d: "distinct (map fst ev)" and nk: "map_of ev k' = None"
    by (auto simp: map_of_eq_None_iff)
  show ?case
    using Cons.IH [OF d, of "set_event_attribute E kv sp"] nk kv
    by (auto simp: set_event_attribute_def map_of_set_attribute split: option.splits)
qed

lemma keys_fold_event:
  "fst ` set (attributes (fold (set_event_attribute E) ev sp)) =
     fst ` set (attributes sp) \<union> {k. \<exists>v. (k, v) \<in> set ev \<and> v \<noteq> VNone}"
proof (induction ev arbitrary: sp)
  case Nil
  show ?case by simp
next
  case (Cons kv ev)
  show ?case
    unfolding fold_simps Cons.IH
    by (cases kv) (auto simp: set_event_attribute_def keys_set_attribute)
qed

lemmas span_eval = emit_span_def set_event_attribute_def set_attribute_def span_attribute_def
  error_marker_def demo_exporter_def OTelExporter_init_def demo_lib_def socket_metadata_def


text \<open>
  Claim C8, as stated (an attribute that fails to serialize is replaced with the error
  marker), fails: the first handler of \<open>emit_span\<close> sets the attribute to
  \<open>repr(value)\<close>, and the marker is used only when \<open>repr\<close> fails as well. Below,
  \<open>json.dumps\<close> refuses the metadata dictionary, and the span carries its \<open>repr\<close>,
  not the marker.
\<close>

theorem emit_span_marker_counterexample:
  "emit_span (demo_lib []) demo_exporter ''operational'' ''agent''
      [(''method'', VStr ''run''), (''metadata'', socket_metadata)] empty_world
     = Inr (empty_world\<lparr>spans :=
         [\<lparr>span_name = ''agent.operational'',
           attributes = [(''surface'', VStr ''operational''), (''agent'', VStr ''agent''),
                         (''method'', VStr ''run''),
                         (''metadata'', VStr ''{handle:<Socket object>,}'')]\<rparr>]\<rparr>)
   \<and> attribute_of (demo_lib []) socket_metadata
       = Inl (LibError ''TypeError'' ''Object is not JSON serializable'')
   \<and> error_marker socket_metadata = ''<error serializing value: dict>''"
  by (simp add: span_eval Let_def empty_world_def)



text \<open>
  Claim C8, amended. Whenever a span is started for an event (a tracer exists and the
  span can be started), exactly one span is emitted, named \<open>{agent}.{surface}\<close>; its
  attributes are \<open>surface\<close>, \<open>agent\<close> and every payload key whose value is not
  \<open>None\<close>, and no other. A payload value is set as converted when the conversion
  succeeds; when it fails, that one attribute is set to \<open>repr(value)\<close>; when
  \<open>repr\<close> fails too, it is set to the marker \<open><error serializing value: T>\<close> with
  \<open>T\<close> the value's type name. A failing conversion never drops the span or another
  attribute.
\<close>

theorem emit_span_keeps_every_attribute:
  assumes tr: "tracer ex = Some t"
    and started: "start_span_error E (agent @ ''.'' @ surface) = None"
    and keys: "distinct (map fst event)"
  shows "\<exists>sp. emit_span E ex surface agent event w = Inr (w\<lparr>spans := spans w @ [sp]\<rparr>)
          \<and> span_name sp = agent @ ''.'' @ surface
          \<and> fst ` set (attributes sp) =
               {''surface'', ''agent''} \<union> {k. \<exists>v. (k, v) \<in> set event \<and> v \<noteq> VNone}
          \<and> (\<forall>k v. (k, v) \<in> set event \<and> v \<noteq> VNone \<longrightarrow>
                map_of (attributes sp) k = Some (span_attribute E v)
              \<and> (\<forall>a. attribute_of E v = Inr a \<longrightarrow> span_attribute E v = a)
              \<and> (\<forall>e r. attribute_of E v = Inl e \<and> py_repr E v = Inr r \<longrightarrow>
                    span_attribute E v = VStr r)
              \<and> (\<forall>e e'. attribute_of E v = Inl e \<and> py_repr E v = Inl e' \<longrightarrow>
                    span_attribute E v =
                      VStr (''<error serializing value: '' @ type_name v @ ''>'')))"
proof -
  let ?sp2 = "set_attribute ''agent'' (VStr agent)
                (set_attribute ''surface'' (VStr surface)
                   \<lparr>span_name = agent @ ''.'' @ surface, attributes = []\<rparr>)"
  let ?sp = "fold (set_event_attribute E) event ?sp2"
  have e: "emit_span E ex surface agent event w = Inr (w\<lparr>spans := spans w @ [?sp]\<rparr>)"
    using tr started by (simp add: emit_span_def Let_def)
  have n: "span_name ?sp = agent @ ''.'' @ surface"
    by (simp add: set_attribute_def)
  have k: "fst ` set (attributes ?sp) =
               {''surface'', ''agent''} \<union> {k. \<exists>v. (k, v) \<in> set event \<and> v \<noteq> VNone}"
    unfolding keys_fold_event by (auto simp: keys_set_attribute)
  have a: "\<forall>k v. (k, v) \<in> set event \<and> v \<noteq> VNone \<longrightarrow>
                map_of (attributes ?sp) k = Some (span_attribute E v)
              \<and> (\<forall>a. attribute_of E v = Inr a \<longrightarrow> span_attribute E v = a)
              \<and> (\<forall>e r. attribute_of E v = Inl e \<and> py_repr E v = Inr r \<longrightarrow>
                    span_attribute E v = VStr r)
              \<and> (\<forall>e e'. attribute_of E v = Inl e \<and> py_repr E v = Inl e' \<longrightarrow>
                    span_attribute E v =
                      VStr (''<error serializing value: '' @ type_name v @ ''>''))"
  proof (intro allI impI)
    fix k v assume h: "(k, v) \<in> set event \<and> v \<noteq> VNone"
    then have "map_of event k = Some v" using keys by simp
    then have m: "map_of (attributes ?sp) k = Some (span_attribute E v)"
      using h by (simp add: map_of_fold_event [OF keys])
    show "map_of (attributes ?sp) k = Some (span_attribute E v)
              \<and> (\<forall>a. attribute_of E v = Inr a \<longrightarrow> span_attribute E v = a)
              \<and> (\<forall>e r. attribute_of E v = Inl e \<and> py_repr E v = Inr r \<longrightarrow>
                    span_attribute E v = VStr r)
              \<and> (\<forall>e e'. attribute_of E v = Inl e \<and> py_repr E v = Inl e' \<longrightarrow>
                    span_attribute E v =
                      VStr (''<error serializing value: '' @ type_name v @ ''>''))"
      using m by (simp add: span_attribute_def error_marker_def)
  qed
  from e n k a show ?thesis by blast
qed


theorem emit_span_keeps_every_attribute_witness:
  "tracer demo_exporter = Some ''A-LOG-Agent'' \<and>
   start_span_error (demo_lib []) (''agent'' @ ''.'' @ ''operational'') = None \<and>
   distinct (map fst [(''method'', VStr ''run''), (''error'', VNone), (''metadata'', socket_metadata)]) \<and>
   (\<exists>sp. emit_span (demo_lib []) demo_exporter ''operational'' ''agent''
            [(''method'', VStr ''run''), (''error'', VNone), (''metadata'', socket_metadata)]
            empty_world = Inr (empty_world\<lparr>spans := spans empty_world @ [sp]\<rparr>)
        \<and> span_name sp = ''agent.operational''
        \<and> fst ` set (attributes sp) = {''surface'', ''agent'', ''method'', ''metadata''}
        \<and> map_of (attributes sp) ''metadata'' = Some (VStr ''{handle:<Socket object>,}''))"
proof -
  let ?ev = "[(''method'', VStr ''run''), (''error'', VNone), (''metadata'', socket_metadata)]"
  have tr: "tracer demo_exporter = Some ''A-LOG-Agent''"
    by (simp add: demo_exporter_def OTelExporter_init_def demo_lib_def)
  have st: "start_span_error (demo_lib []) (''agent'' @ ''.'' @ ''operational'') = None"
    by (simp add: demo_lib_def)
  have d: "distinct (map fst ?ev)" by simp
  have ks: "{k. \<exists>v. (k, v) \<in> set ?ev \<and> v \<noteq> VNone} = {''method'', ''metadata''}"
    by (auto simp: socket_metadata_def)
  have sa: "span_attribute (demo_lib []) socket_metadata = VStr ''{handle:<Socket object>,}''"
    by (simp add: span_eval)
  have sm: "(''metadata'', socket_metadata) \<in> set ?ev \<and> socket_metadata \<noteq> VNone"
    by (simp add: socket_metadata_def)
  from emit_span_keeps_every_attribute [OF tr st d, of empty_world] show ?thesis
  proof (elim exE conjE, goal_cases)
    case (1 sp)
    note a = 1(4) [rule_format, of "''metadata''" socket_metadata, OF sm, THEN conjunct1]
    have m: "map_of (attributes sp) ''metadata'' = Some (VStr ''{handle:<Socket object>,}'')"
      using a sa by simp
    have k: "fst ` set (attributes sp) = {''surface'', ''agent'', ''method'', ''metadata''}"
      using 1(3) ks by (simp add: insert_commute)
    have n: "span_name sp = ''agent.operational''" using 1(2) by simp
    have r: "emit_span (demo_lib []) demo_exporter ''operational'' ''agent'' ?ev empty_world
        = Inr (empty_world\<lparr>spans := spans empty_world @ [sp]\<rparr>)
        \<and> span_name sp = ''agent.operational''
        \<and> fst ` set (attributes sp) = {''surface'', ''agent'', ''method'', ''metadata''}
        \<and> map_of (attributes sp) ''metadata'' = Some (VStr ''{handle:<Socket object>,}'')"
      using 1(1) n k m by (intro conjI)
    have ex: "\<exists>sp. emit_span (demo_lib []) demo_exporter ''operational'' ''agent'' ?ev empty_world
        = Inr (empty_world\<lparr>spans := spans empty_world @ [sp]\<rparr>)
        \<and> span_name sp = ''agent.operational''
        \<and> fst ` set (attributes sp) = {''surface'', ''agent'', ''method'', ''metadata''}
        \<and> map_of (attributes sp) ''metadata'' = Some (VStr ''{handle:<Socket object>,}'')"
      by (rule exI [of _ sp]) (rule r)
    show ?case
      using tr st d ex by (intro conjI)
  qed
qed


section \<open>Properties of \<open>instrument_agent\<close>\<close>

text \<open>Before \<open>init\<close>, \<open>instrument_agent\<close> raises without looking at the target.\<close>

lemma instrument_agent_uninitialised:
  "global_logger rt = None \<Longrightarrow>
   instrument_agent E rt st agent name methods
     = Inl (PyExc True ''RuntimeError'' ''A-LOG not initialized. Call init() first.'')"
  by (simp add: instrument_agent_def)


text \<open>
  Claim C9. When instrumentation, on an initialised logger, finds no eligible method on
  the target (no name of the explicit list is present and callable on it, or, without a
  list, it has no public callable attribute), \<open>instrument_agent\<close> raises nothing and
  returns the reference it was given, with the store, and so the target, unchanged.
\<close>

theorem instrument_agent_no_methods:
  assumes initialised: "global_logger rt = Some lg"
    and none_listed: "\<forall>ms. methods = Some ms \<longrightarrow> (\<forall>m\<in>set ms. \<not> callable_attr (st agent) m)"
    and none_public: "methods = None \<longrightarrow>
           (\<forall>a\<in>set (dir_py (st agent)). starts_with ''_'' a \<or> \<not> callable_attr (st agent) a)"
  shows "instrument_agent E rt st agent name methods = Inr (agent, st)"
proof -
  have "target_methods_of (st agent) methods = []"
  proof (cases methods)
    case None
    with none_public show ?thesis
      by (auto simp: target_methods_of_def filter_empty_conv)
  next
    case (Some ms)
    with none_listed show ?thesis
      by (auto simp: target_methods_of_def filter_empty_conv)
  qed
  with initialised show ?thesis
    by (simp add: instrument_agent_def)
qed

theorem instrument_agent_no_methods_witness:
  "global_logger demo_runtime = Some demo_logger \<and>
   target_methods_of (demo_store 0) None = [] \<and>
   target_methods_of (demo_store 0) (Some [''missing'', ''name'']) = [] \<and>
   instrument_agent (demo_lib []) demo_runtime demo_store 0 ''agent'' None = Inr (0, demo_store) \<and>
   instrument_agent (demo_lib []) demo_runtime demo_store 0 ''agent'' (Some [''missing'', ''name''])
     = Inr (0, demo_store)"
proof -
  have i: "global_logger demo_runtime = Some demo_logger"
    by (simp add: demo_runtime_def)
  have p: "\<forall>a\<in>set (dir_py (demo_store 0)). starts_with ''_'' a \<or> \<not> callable_attr (demo_store 0) a"
    by (simp add: demo_store_def plain_object_def dir_py_def callable_attr_def)
  have l: "\<forall>m\<in>set [''missing'', ''name'']. \<not> callable_attr (demo_store 0) m"
    by (simp add: demo_store_def plain_object_def callable_attr_def)
  have a: "instrument_agent (demo_lib []) demo_runtime demo_store 0 ''agent'' None = Inr (0, demo_store)"
    using p by (intro instrument_agent_no_methods [OF i]) simp_all
  have b: "instrument_agent (demo_lib []) demo_runtime demo_store 0 ''agent'' (Some [''missing'', ''name''])
     = Inr (0, demo_store)"
    using l by (intro instrument_agent_no_methods [OF i]) simp_all
  have t: "target_methods_of (demo_store 0) None = []"
    "target_methods_of (demo_store 0) (Some [''missing'', ''name'']) = []"
    by (simp_all add: target_methods_of_def demo_store_def plain_object_def dir_py_def
          callable_attr_def)
  from i t a b show ?thesis by (intro conjI)
qed

section \<open>Properties of the wrapper\<close>

subsection \<open>The events of one wrapped call\<close>









lemma files_time_now_eq [simp]: "files (snd (time_now E w)) = files w"
  by (simp add: time_now_def)

lemma file_lines_time_now [simp]: "file_lines (snd (time_now E w)) p = file_lines w p"
  by (simp add: file_lines_def)

lemma file_lines_utc_now [simp]: "file_lines (snd (utc_now E w)) p = file_lines w p"
  by (simp add: file_lines_def)





lemma str_value_VStr [simp]: "str_value E (VStr s) = Inr s"
  by (simp add: str_value_def)







lemmas wrapper_eval = logged_wrapper_def log_start_def except_handler_def after_return_def
  record_operational_def record_cognitive_def operational_event_def cognitive_event_def
  args_metadata_def or_empty_dict_def result_summary_of_def str_value_def format_value_def
  truncate_thought_def opt_str_def demo_runtime_def
  interrupted_method_def failing_method_def answering_method_def blank_trace_method_def
  frame_method_def raise_lib_def


subsection \<open>A wrapped method that raises\<close>






subsection \<open>A wrapped method that returns a text with a reasoning trace\<close>















text \<open>
  When the text between the markers is blank, the pair matches with an empty reasoning;
  the test \<open>if reasoning\<close> fails, no cognitive event is recorded and the caller receives
  the original text, markers included.
\<close>

lemma wrapper_blank_reasoning:
  "pattern_search blank_trace
     = Some \<lparr>m_start = 6, m_end = 60, group1 = ''  ''\<rparr> \<and>
   extract_reasoning_trace blank_trace = (''ANSWER'', Some []) \<and>
   fst (logged_wrapper (demo_lib []) blank_trace_method ''agent'' ''run'' [] [] demo_runtime)
     = Inr (VStr blank_trace) \<and>
   files (io (snd (logged_wrapper (demo_lib []) blank_trace_method ''agent'' ''run'' [] []
                     demo_runtime))) ''logs/cognitive.jsonl''
     = None"
  by (simp add: wrapper_eval demo_eval record_eval extract_eval blank_trace_def Let_def)

text \<open>
  When the truth test of the returned object raises, or its \<open>str\<close>, the caller gets
  that exception instead of the object, and the operational file holds the start and the
  error event; with a library in which neither raises, the same object is returned.
\<close>

lemma wrapper_raises_on_result:
  "fst (logged_wrapper ambiguous_lib frame_method ''agent'' ''run'' [] [] demo_runtime)
     = Inl (PyExc True ''ValueError'' ''The truth value of a DataFrame is ambiguous'') \<and>
   map_option length
     (files (io (snd (logged_wrapper ambiguous_lib frame_method ''agent'' ''run'' [] []
                        demo_runtime))) ''logs/operational.jsonl'')
     = Some 2 \<and>
   fst (logged_wrapper unprintable_lib frame_method ''agent'' ''run'' [] [] demo_runtime)
     = Inl (PyExc True ''RuntimeError'' ''cannot print'') \<and>
   fst (logged_wrapper (demo_lib []) frame_method ''agent'' ''run'' [] [] demo_runtime)
     = Inr (VObj ''DataFrame'' 1)"
  by (simp add: wrapper_eval ambiguous_lib_def unprintable_lib_def demo_eval record_eval Let_def)

text \<open>
  A wrapped method whose logger cannot open any of its files still returns its answer to
  the caller: each of the three \<open>record\<close> calls of the wrapper opens its file once and
  leaves one ERROR entry on the console, and no file comes into being.
\<close>

lemma wrapper_survives_sink_failure:
  "fst (logged_wrapper failing_lib answering_method ''agent'' ''run'' [] [] demo_runtime)
     = Inr (VStr ''ANSWER'') \<and>
   files (io (snd (logged_wrapper failing_lib answering_method ''agent'' ''run'' [] []
                     demo_runtime))) = (\<lambda>p. None) \<and>
   io_calls (io (snd (logged_wrapper failing_lib answering_method ''agent'' ''run'' [] []
                        demo_runtime)))
     = [FileOpen ''logs/operational.jsonl'', FileOpen ''logs/operational.jsonl'',
        FileOpen ''logs/cognitive.jsonl''] \<and>
   filter (\<lambda>x. fst x = LOG_ERROR)
     (console (io (snd (logged_wrapper failing_lib answering_method ''agent'' ''run'' [] []
                          demo_runtime))))
     = [(LOG_ERROR, ''Failed to write to logs/operational.jsonl: No space left on device''),
        (LOG_ERROR, ''Failed to write to logs/operational.jsonl: No space left on device''),
        (LOG_ERROR, ''Failed to write to logs/cognitive.jsonl: No space left on device'')]"
  by (simp add: wrapper_eval failing_lib_def demo_eval record_eval extract_eval
        answer_with_trace_def Let_def)




end
